theory Spec2Isabelle
  imports Complex_Main
begin

section \<open>Floating-point values of a pandas Series\<close>

text \<open>
  The scripts compute on pandas Series of dtype float64. A value is a finite number,
  one of the two infinities, or NaN (pandas' marker for "undefined"). Finite values are
  idealised as real numbers: rounding, overflow and the sign of zero are not modelled;
  the special values follow IEEE 754 (\<open>x / 0\<close> is an infinity or NaN, \<open>0 * inf\<close> and
  \<open>inf - inf\<close> are NaN, every comparison with NaN is false). Where rounding decides a
  branch of the code, the test \<open>std_daily == 0\<close> of \<open>annualized_sharpe\<close> on a sample of
  identical values, the operations are given a second time with the rounding of float64
  (section "The Sharpe ratio in float64 arithmetic").
\<close>

datatype fl = Fin real | PInf | NInf | NaN

type_synonym series = "fl list"

fun isnan :: "fl \<Rightarrow> bool" where
  "isnan NaN = True"
| "isnan _ = False"

fun isinf :: "fl \<Rightarrow> bool" where
  "isinf PInf = True"
| "isinf NInf = True"
| "isinf _ = False"

fun fneg :: "fl \<Rightarrow> fl" where
  "fneg (Fin a) = Fin (- a)"
| "fneg PInf = NInf"
| "fneg NInf = PInf"
| "fneg NaN = NaN"

fun fadd :: "fl \<Rightarrow> fl \<Rightarrow> fl" where
  "fadd (Fin a) (Fin b) = Fin (a + b)"
| "fadd (Fin a) PInf = PInf"
| "fadd (Fin a) NInf = NInf"
| "fadd PInf (Fin b) = PInf"
| "fadd PInf PInf = PInf"
| "fadd PInf NInf = NaN"
| "fadd NInf (Fin b) = NInf"
| "fadd NInf NInf = NInf"
| "fadd NInf PInf = NaN"
| "fadd NaN _ = NaN"
| "fadd _ NaN = NaN"

definition fsub :: "fl \<Rightarrow> fl \<Rightarrow> fl" where
  "fsub a b = fadd a (fneg b)"

fun fmul :: "fl \<Rightarrow> fl \<Rightarrow> fl" where
  "fmul (Fin a) (Fin b) = Fin (a * b)"
| "fmul (Fin a) PInf = (if 0 < a then PInf else if a < 0 then NInf else NaN)"
| "fmul (Fin a) NInf = (if 0 < a then NInf else if a < 0 then PInf else NaN)"
| "fmul PInf (Fin b) = (if 0 < b then PInf else if b < 0 then NInf else NaN)"
| "fmul NInf (Fin b) = (if 0 < b then NInf else if b < 0 then PInf else NaN)"
| "fmul PInf PInf = PInf"
| "fmul PInf NInf = NInf"
| "fmul NInf PInf = NInf"
| "fmul NInf NInf = PInf"
| "fmul NaN _ = NaN"
| "fmul _ NaN = NaN"

fun fdiv :: "fl \<Rightarrow> fl \<Rightarrow> fl" where
  "fdiv (Fin a) (Fin b) =
     (if b \<noteq> 0 then Fin (a / b)
      else if 0 < a then PInf else if a < 0 then NInf else NaN)"
| "fdiv (Fin a) PInf = Fin 0"
| "fdiv (Fin a) NInf = Fin 0"
| "fdiv PInf (Fin b) = (if 0 \<le> b then PInf else NInf)"
| "fdiv NInf (Fin b) = (if 0 \<le> b then NInf else PInf)"
| "fdiv PInf PInf = NaN"
| "fdiv PInf NInf = NaN"
| "fdiv NInf PInf = NaN"
| "fdiv NInf NInf = NaN"
| "fdiv NaN _ = NaN"
| "fdiv _ NaN = NaN"

fun fabs :: "fl \<Rightarrow> fl" where
  "fabs (Fin a) = Fin \<bar>a\<bar>"
| "fabs PInf = PInf"
| "fabs NInf = PInf"
| "fabs NaN = NaN"

fun fsqrt :: "fl \<Rightarrow> fl" where
  "fsqrt (Fin a) = (if 0 \<le> a then Fin (sqrt a) else NaN)"
| "fsqrt PInf = PInf"
| "fsqrt NInf = NaN"
| "fsqrt NaN = NaN"

text \<open>\<open>np.log\<close>: minus infinity at zero, NaN below zero (a warning, never an exception).\<close>

fun flog :: "fl \<Rightarrow> fl" where
  "flog (Fin a) = (if 0 < a then Fin (ln a) else if a = 0 then NInf else NaN)"
| "flog PInf = PInf"
| "flog NInf = NaN"
| "flog NaN = NaN"

fun flt :: "fl \<Rightarrow> fl \<Rightarrow> bool" where
  "flt (Fin a) (Fin b) = (a < b)"
| "flt (Fin a) PInf = True"
| "flt NInf (Fin b) = True"
| "flt NInf PInf = True"
| "flt _ _ = False"


text \<open>\<open>np.maximum\<close> and \<open>np.minimum\<close>: NaN if either argument is NaN.\<close>

definition fmax :: "fl \<Rightarrow> fl \<Rightarrow> fl" where
  "fmax a b = (if isnan a \<or> isnan b then NaN else if flt a b then b else a)"

definition fmin :: "fl \<Rightarrow> fl \<Rightarrow> fl" where
  "fmin a b = (if isnan a \<or> isnan b then NaN else if flt b a then b else a)"


section \<open>The pandas operations the scripts call\<close>

text \<open>\<open>Series.shift(1)\<close>: every value moves one row down, the first row becomes NaN.\<close>

definition shift1 :: "series \<Rightarrow> series" where
  "shift1 xs = (if xs = [] then [] else NaN # butlast xs)"

definition fillna :: "real \<Rightarrow> series \<Rightarrow> series" where
  "fillna v xs = map (\<lambda>x. if isnan x then Fin v else x) xs"

definition dropna :: "series \<Rightarrow> series" where
  "dropna xs = filter (\<lambda>x. \<not> isnan x) xs"

text \<open>\<open>Series.diff()\<close> is \<open>x[t] - x[t-1]\<close>, \<open>Series.pct_change()\<close> is \<open>x[t] / x[t-1] - 1\<close>.\<close>

definition series_diff :: "series \<Rightarrow> series" where
  "series_diff xs = map2 fsub xs (shift1 xs)"

definition pct_change :: "series \<Rightarrow> series" where
  "pct_change xs = map2 (\<lambda>x p. fsub (fdiv x p) (Fin 1)) xs (shift1 xs)"

text \<open>An integer column read as floats (what \<open>shift\<close> and \<open>diff\<close> do to an int64 Series).\<close>

definition to_float :: "int list \<Rightarrow> series" where
  "to_float ks = map (\<lambda>k. Fin (real_of_int k)) ks"

text \<open>
  Reductions skip NaN (\<open>skipna=True\<close>). \<open>sum\<close> of nothing is 0, \<open>mean\<close> and \<open>min\<close> of
  nothing are NaN, \<open>std(ddof=1)\<close> of fewer than two values is NaN. The standard
  deviation follows pandas' \<open>nanvar\<close>: the mean first, then the squared deviations.
\<close>

definition fsum :: "series \<Rightarrow> fl" where
  "fsum xs = foldr fadd xs (Fin 0)"

definition series_sum :: "series \<Rightarrow> fl" where
  "series_sum xs = fsum (dropna xs)"

definition series_mean :: "series \<Rightarrow> fl" where
  "series_mean xs =
     (let ys = dropna xs in
      if ys = [] then NaN else fdiv (fsum ys) (Fin (real (length ys))))"

definition series_std :: "series \<Rightarrow> fl" where
  "series_std xs =
     (let ys = dropna xs; count = length ys in
      if count \<le> 1 then NaN
      else (let avg = fdiv (fsum ys) (Fin (real count));
                sqr = map (\<lambda>v. fmul (fsub avg v) (fsub avg v)) ys
            in fsqrt (fdiv (fsum sqr) (Fin (real (count - 1))))))"

definition series_min :: "series \<Rightarrow> fl" where
  "series_min xs = (case dropna xs of [] \<Rightarrow> NaN | y # ys \<Rightarrow> foldl fmin y ys)"

text \<open>
  Cumulative operations (\<open>na_accum_func\<close>): NaN rows are replaced by the neutral value,
  the numpy accumulation (\<open>np.cumprod\<close>, \<open>np.maximum.accumulate\<close>) runs, and the NaN
  rows are put back.
\<close>

fun accum_from :: "('a \<Rightarrow> 'a \<Rightarrow> 'a) \<Rightarrow> 'a \<Rightarrow> 'a list \<Rightarrow> 'a list" where
  "accum_from f a [] = []"
| "accum_from f a (x # xs) = f a x # accum_from f (f a x) xs"

fun accumulate :: "('a \<Rightarrow> 'a \<Rightarrow> 'a) \<Rightarrow> 'a list \<Rightarrow> 'a list" where
  "accumulate f [] = []"
| "accumulate f (x # xs) = x # accum_from f x xs"

definition na_accum_func :: "(fl \<Rightarrow> fl \<Rightarrow> fl) \<Rightarrow> fl \<Rightarrow> series \<Rightarrow> series" where
  "na_accum_func f neutral xs =
     map2 (\<lambda>x r. if isnan x then NaN else r) xs
       (accumulate f (map (\<lambda>x. if isnan x then neutral else x) xs))"

definition cumprod :: "series \<Rightarrow> series" where
  "cumprod xs = na_accum_func fmul (Fin 1) xs"

definition cummax :: "series \<Rightarrow> series" where
  "cummax xs = na_accum_func fmax NInf xs"

text \<open>
  Rolling windows: pandas turns infinities into NaN before its window routines run,
  the window ending at row \<open>t\<close> holds the last \<open>window\<close> rows, and a statistic is
  NaN unless the window has at least \<open>min_periods\<close> values that are not NaN.
\<close>

definition prep_values :: "series \<Rightarrow> series" where
  "prep_values xs = map (\<lambda>x. if isinf x then NaN else x) xs"

definition window_at :: "nat \<Rightarrow> series \<Rightarrow> nat \<Rightarrow> series" where
  "window_at w xs t = drop (t + 1 - w) (take (t + 1) xs)"

definition rolling :: "nat \<Rightarrow> nat \<Rightarrow> (series \<Rightarrow> fl) \<Rightarrow> series \<Rightarrow> series" where
  "rolling w min_periods stat xs =
     map (\<lambda>t. let win = dropna (window_at w (prep_values xs) t) in
              if min_periods \<le> length win then stat win else NaN)
         [0..<length xs]"


section \<open>The backtest: returns, signal, position, costs\<close>

datatype error = ValueError | OverflowError

text \<open>\<open>int(x)\<close> on a float: truncation towards zero; NaN and the infinities raise.\<close>

fun py_int :: "fl \<Rightarrow> error + int" where
  "py_int (Fin a) = Inr (if 0 \<le> a then \<lfloor>a\<rfloor> else \<lceil>a\<rceil>)"
| "py_int NaN = Inl ValueError"
| "py_int _ = Inl OverflowError"

definition TRADING_DAYS :: real where
  "TRADING_DAYS = 252"

definition compute_returns_from_price :: "real list \<Rightarrow> bool \<Rightarrow> series" where
  "compute_returns_from_price prices use_log =
     (let series = map Fin prices in
      if use_log then series_diff (map flog series) else pct_change series)"

text \<open>Toy signal: long today if yesterday's close-to-close return is negative.\<close>

definition generate_signals :: "real list \<Rightarrow> int list" where
  "generate_signals close =
     (let y_ret = shift1 (pct_change (map Fin close)) in
      map (\<lambda>y. if flt y (Fin 0) then 1 else 0) y_ret)"

text \<open>The position held on day \<open>t\<close>: \<open>signal.shift(1).fillna(0.0)\<close>.\<close>

definition position :: "int list \<Rightarrow> series" where
  "position signal = fillna 0 (shift1 (to_float signal))"

text \<open>The trades: \<open>signal.diff().abs().fillna(0.0)\<close>.\<close>

definition flips :: "int list \<Rightarrow> series" where
  "flips signal = fillna 0 (map fabs (series_diff (to_float signal)))"

record strategy_frame =
  ret :: series
  strategy_ret :: series

definition apply_strategy ::
  "int list \<Rightarrow> real list \<Rightarrow> real \<Rightarrow> bool \<Rightarrow> error + (strategy_frame \<times> int)" where
  "apply_strategy signal price fee_bps use_log =
     (let r = fillna 0 (compute_returns_from_price price use_log);
          pos = position signal;
          gross = map2 fmul pos r;
          fl = flips signal
      in case py_int (series_sum fl) of
           Inl e \<Rightarrow> Inl e
         | Inr trade_count \<Rightarrow>
             (let fee = fee_bps / 10000 in
              Inr (\<lparr>ret = r,
                    strategy_ret = map2 fsub gross (map (\<lambda>f. fmul f (Fin fee)) fl)\<rparr>,
                   trade_count)))"

section \<open>Risk metrics\<close>

definition annualize_vol :: "fl \<Rightarrow> fl" where
  "annualize_vol std_daily = fmul std_daily (Fin (sqrt TRADING_DAYS))"

definition annualized_sharpe :: "fl \<Rightarrow> fl \<Rightarrow> fl" where
  "annualized_sharpe mean_daily std_daily =
     (if std_daily = Fin 0 then NaN
      else fmul (fdiv mean_daily std_daily) (Fin (sqrt TRADING_DAYS)))"

definition annualized_sortino :: "fl \<Rightarrow> fl \<Rightarrow> fl" where
  "annualized_sortino mean_daily downside_std_daily =
     (if downside_std_daily = Fin 0 then NaN
      else fmul (fdiv mean_daily downside_std_daily) (Fin (sqrt TRADING_DAYS)))"

text \<open>The equity curve, its running peak and the drawdown of \<open>max_drawdown_from_returns\<close>.\<close>

definition equity :: "series \<Rightarrow> series" where
  "equity r = cumprod (map (fadd (Fin 1)) (fillna 0 r))"

definition drawdown :: "series \<Rightarrow> series" where
  "drawdown r =
     (let eq = equity r; peak = cummax eq in
      map2 (\<lambda>e p. fsub (fdiv e p) (Fin 1)) eq peak)"

definition max_drawdown_from_returns :: "series \<Rightarrow> fl" where
  "max_drawdown_from_returns r =
     (let dd = drawdown r in if dd \<noteq> [] then series_min dd else NaN)"

definition rolling_sharpe_annualized :: "series \<Rightarrow> nat \<Rightarrow> series" where
  "rolling_sharpe_annualized excess window =
     (let m = rolling window window series_mean excess;
          s = rolling window window series_std excess;
          rs = map2 fdiv m s
      in map (\<lambda>x. fmul x (Fin (sqrt TRADING_DAYS))) rs)"

record metrics =
  n :: nat
  mean_daily_excess :: fl
  std_daily_excess :: fl
  downside_std_daily :: fl
  vol_annualized :: fl
  sharpe_annualized :: fl
  sortino_annualized :: fl
  max_drawdown :: fl
  hit_rate :: fl
  cumulative_return :: fl

definition compute_summary_metrics :: "series \<Rightarrow> metrics" where
  "compute_summary_metrics excess =
     (let xs = dropna excess;
          cnt = length xs;
          mean_d = series_mean xs;
          std_d = series_std xs;
          downside = filter (\<lambda>x. flt x (Fin 0)) xs;
          down_std_d = (if 1 < length downside then series_std downside else NaN);
          vol_ann = (if \<not> isnan std_d then annualize_vol std_d else NaN);
          sharpe_ann = (if \<not> isnan std_d then annualized_sharpe mean_d std_d else NaN);
          sortino_ann =
            (if \<not> isnan down_std_d then annualized_sortino mean_d down_std_d else NaN);
          mdd = max_drawdown_from_returns xs;
          cum_ret =
            (if cnt \<noteq> 0 then fsub (last (cumprod (map (fadd (Fin 1)) xs))) (Fin 1)
             else NaN);
          hit =
            (if cnt \<noteq> 0
             then Fin (real (length (filter (\<lambda>x. flt (Fin 0) x) xs)) / real cnt)
             else NaN)
      in \<lparr>n = cnt, mean_daily_excess = mean_d, std_daily_excess = std_d,
          downside_std_daily = down_std_d, vol_annualized = vol_ann,
          sharpe_annualized = sharpe_ann, sortino_annualized = sortino_ann,
          max_drawdown = mdd, hit_rate = hit, cumulative_return = cum_ret\<rparr>)"


section \<open>The run\<close>

text \<open>
  The table read from the CSV file, sorted by date: the \<open>close\<close> column, the \<open>open\<close>
  column if the file has one, and any further columns by name. The command line gives
  the fee, the return mode, the execution price, the window and the risk-free column.
\<close>

datatype exec_basis = ExecOpen | ExecClose

record frame =
  close :: "real list"
  open_px :: "real list option"
  extra :: "string \<rightharpoonup> series"

record args =
  fee_bps :: real
  use_log_returns :: bool
  exec_price :: exec_basis
  window :: int
  riskfree_col :: "string option"

record report =
  summary :: metrics
  trade_count :: int
  last_roll :: fl

definition last_defined :: "series \<Rightarrow> fl" where
  "last_defined xs = (if dropna xs \<noteq> [] then last (dropna xs) else NaN)"

definition excess_returns :: "args \<Rightarrow> frame \<Rightarrow> series \<Rightarrow> error + series" where
  "excess_returns a df strategy =
     (case riskfree_col a of
        None \<Rightarrow> Inr strategy
      | Some c \<Rightarrow>
          (case extra df c of
             None \<Rightarrow> Inl ValueError
           | Some rf \<Rightarrow> Inr (map2 fsub strategy (fillna 0 rf))))"

definition price_column :: "args \<Rightarrow> frame \<Rightarrow> error + real list" where
  "price_column a df =
     (case exec_price a of
        ExecClose \<Rightarrow> Inr (close df)
      | ExecOpen \<Rightarrow> (case open_px df of None \<Rightarrow> Inl ValueError | Some p \<Rightarrow> Inr p))"

definition run_backtest :: "args \<Rightarrow> frame \<Rightarrow> error + report" where
  "run_backtest a df =
     (case price_column a df of
        Inl e \<Rightarrow> Inl e
      | Inr price \<Rightarrow>
          (let signal = generate_signals (close df) in
           case apply_strategy signal price (fee_bps a) (use_log_returns a) of
             Inl e \<Rightarrow> Inl e
           | Inr (out, tc) \<Rightarrow>
               (case excess_returns a df (strategy_ret out) of
                  Inl e \<Rightarrow> Inl e
                | Inr excess \<Rightarrow>
                    (let m = compute_summary_metrics excess;
                         w = nat (max 5 (window a));
                         roll_sharpe = rolling_sharpe_annualized excess w
                     in Inr \<lparr>summary = m, trade_count = tc,
                             last_roll = last_defined roll_sharpe\<rparr>))))"


section \<open>The cost model as the specification words it\<close>

text \<open>
  The specification's CostModel, kept apart from the code: \<open>flip[t] = |position[t] -
  position[t-1]|\<close> with \<open>flip[0] = 0\<close>, where \<open>position[t] = signal[t-1]\<close> and
  \<open>position[0] = 0\<close>, and \<open>trade_count = sum(flip)\<close>.
\<close>

definition spec_position :: "int list \<Rightarrow> nat \<Rightarrow> int" where
  "spec_position signal t = (if t = 0 then 0 else signal ! (t - 1))"

definition spec_flip :: "int list \<Rightarrow> nat \<Rightarrow> int" where
  "spec_flip signal t =
     (if t = 0 then 0 else \<bar>spec_position signal t - spec_position signal (t - 1)\<bar>)"

definition spec_trade_count :: "int list \<Rightarrow> int" where
  "spec_trade_count signal = (\<Sum>t\<leftarrow>[0..<length signal]. spec_flip signal t)"


section \<open>The Sharpe ratio in float64 arithmetic\<close>

text \<open>
  \<open>float64 x\<close> is the double nearest to \<open>x\<close>: 53 significant bits, ties to the even
  significand. The exponent is not bounded, so overflow and subnormal numbers are left
  out; the function is the rounding of IEEE 754 for magnitudes from \<open>2^-1022\<close> up to the
  largest double. \<open>fround\<close> rounds the result of one operation.

  \<open>sum64\<close> is \<open>np.sum\<close> on fewer than eight values, added from left to right.
  \<open>series_mean64\<close> and \<open>series_std64\<close> are \<open>Series.mean()\<close> and \<open>Series.std(ddof=1)\<close>
  (\<open>nanmean\<close>, and \<open>nanvar\<close> followed by \<open>np.sqrt\<close>) with every operation rounded:
  the sum, the division by the count, each deviation from the mean, each square, their
  sum, the division by \<open>count - 1\<close> and the square root. \<open>annualized_sharpe64\<close> is
  \<open>annualized_sharpe\<close> with \<open>math.sqrt(TRADING_DAYS)\<close>, the quotient and the product
  rounded, and \<open>sharpe_annualized64\<close> is the \<open>sharpe_annualized\<close> entry of
  \<open>compute_summary_metrics\<close>.
\<close>

definition round_even :: "real \<Rightarrow> int" where
  "round_even y =
     (let f = \<lfloor>y\<rfloor> in
      if y - of_int f < 1 / 2 then f
      else if 1 / 2 < y - of_int f then f + 1
      else if even f then f else f + 1)"

definition float64 :: "real \<Rightarrow> real" where
  "float64 x =
     (if x = 0 then 0
      else (let e = \<lfloor>log 2 \<bar>x\<bar>\<rfloor> in
            of_int (round_even (x * 2 powr (52 - of_int e))) * 2 powr (of_int e - 52)))"

fun fround :: "fl \<Rightarrow> fl" where
  "fround (Fin a) = Fin (float64 a)"
| "fround PInf = PInf"
| "fround NInf = NInf"
| "fround NaN = NaN"

definition sum64 :: "series \<Rightarrow> fl" where
  "sum64 xs = foldl (\<lambda>s x. fround (fadd s x)) (Fin 0) xs"

definition series_mean64 :: "series \<Rightarrow> fl" where
  "series_mean64 xs =
     (let ys = dropna xs in
      if ys = [] then NaN else fround (fdiv (sum64 ys) (Fin (real (length ys)))))"

definition series_std64 :: "series \<Rightarrow> fl" where
  "series_std64 xs =
     (let ys = dropna xs; count = length ys in
      if count \<le> 1 then NaN
      else (let avg = fround (fdiv (sum64 ys) (Fin (real count)));
                sqr = map (\<lambda>v. fround (fmul (fround (fsub avg v)) (fround (fsub avg v)))) ys
            in fround (fsqrt (fround (fdiv (sum64 sqr) (Fin (real (count - 1))))))))"

definition annualized_sharpe64 :: "fl \<Rightarrow> fl \<Rightarrow> fl" where
  "annualized_sharpe64 mean_daily std_daily =
     (if std_daily = Fin 0 then NaN
      else fround (fmul (fround (fdiv mean_daily std_daily))
                        (fround (Fin (sqrt TRADING_DAYS)))))"

definition sharpe_annualized64 :: "series \<Rightarrow> fl" where
  "sharpe_annualized64 excess =
     (let xs = dropna excess;
          mean_d = series_mean64 xs;
          std_d = series_std64 xs
      in if \<not> isnan std_d then annualized_sharpe64 mean_d std_d else NaN)"


section \<open>Position lag\<close>

lemma length_shift1: "length (shift1 xs) = length xs"
  by (cases xs) (simp_all add: shift1_def)

lemma shift1_nth_0: "xs \<noteq> [] \<Longrightarrow> shift1 xs ! 0 = NaN"
  by (simp add: shift1_def)

lemma shift1_nth: "0 < t \<Longrightarrow> t < length xs \<Longrightarrow> shift1 xs ! t = xs ! (t - 1)"
  by (cases t) (auto simp: shift1_def nth_butlast)

lemma length_position: "length (position signal) = length signal"
  by (simp add: position_def fillna_def length_shift1 to_float_def)

lemma position_nth_0: "signal \<noteq> [] \<Longrightarrow> position signal ! 0 = Fin 0"
  by (simp add: position_def fillna_def shift1_def to_float_def)

lemma position_nth:
  assumes "0 < t" and "t < length signal"
  shows "position signal ! t = Fin (real_of_int (signal ! (t - 1)))"
proof -
  have "shift1 (to_float signal) ! t = to_float signal ! (t - 1)"
    using assms by (simp add: shift1_nth to_float_def)
  moreover have "to_float signal ! (t - 1) = Fin (real_of_int (signal ! (t - 1)))"
    using assms by (simp add: to_float_def)
  ultimately show ?thesis
    using assms by (simp add: position_def fillna_def length_shift1 to_float_def)
qed


section \<open>Row-wise reading of the pipeline\<close>


lemma shift1_nth_if:
  "t < length xs \<Longrightarrow> shift1 xs ! t = (if t = 0 then NaN else xs ! (t - 1))"
  using shift1_nth [of t xs] shift1_nth_0 [of xs] by (cases "t = 0") auto

lemma length_series_diff: "length (series_diff xs) = length xs"
  by (simp add: series_diff_def length_shift1)

lemma length_pct_change: "length (pct_change xs) = length xs"
  by (simp add: pct_change_def length_shift1)

lemma fsub_NaN_right: "fsub a NaN = NaN"
  by (cases a) (simp_all add: fsub_def)

lemma fdiv_NaN_right: "fdiv a NaN = NaN"
  by (cases a) simp_all

lemma series_diff_nth:
  "t < length xs \<Longrightarrow>
   series_diff xs ! t = (if t = 0 then NaN else fsub (xs ! t) (xs ! (t - 1)))"
  by (simp add: series_diff_def length_shift1 shift1_nth_if fsub_NaN_right)

lemma pct_change_nth:
  "t < length xs \<Longrightarrow>
   pct_change xs ! t =
     (if t = 0 then NaN else fsub (fdiv (xs ! t) (xs ! (t - 1))) (Fin 1))"
  by (simp add: pct_change_def length_shift1 shift1_nth_if fdiv_NaN_right fsub_def)

lemma length_generate_signals: "length (generate_signals cl) = length cl"
  by (simp add: generate_signals_def length_shift1 length_pct_change)

lemma generate_signals_nth:
  assumes "t < length cl"
  shows "generate_signals cl ! t =
     (if t < 2 then 0
      else if flt (fsub (fdiv (Fin (cl ! (t - 1))) (Fin (cl ! (t - 2)))) (Fin 1)) (Fin 0)
           then 1 else 0)"
proof -
  let ?p = "pct_change (map Fin cl)"
  have len: "length ?p = length cl" by (simp add: length_pct_change)
  have sh: "shift1 ?p ! t = (if t = 0 then NaN else ?p ! (t - 1))"
    using assms len by (simp add: shift1_nth_if)
  have "t \<noteq> 0 \<Longrightarrow> ?p ! (t - 1) =
      (if t - 1 = 0 then NaN
       else fsub (fdiv (Fin (cl ! (t - 1))) (Fin (cl ! (t - 1 - 1)))) (Fin 1))"
    using assms by (simp add: pct_change_nth)
  moreover have "t - 1 - 1 = t - 2" by simp
  moreover have "t < 2 \<longleftrightarrow> t = 0 \<or> t - 1 = 0" by auto
  ultimately show ?thesis
    using assms sh len by (auto simp: generate_signals_def length_shift1)
qed

lemma length_flips: "length (flips signal) = length signal"
  by (simp add: flips_def fillna_def length_series_diff to_float_def)

lemma flips_nth:
  assumes "t < length signal"
  shows "flips signal ! t =
     Fin (if t = 0 then 0 else \<bar>real_of_int (signal ! t) - real_of_int (signal ! (t - 1))\<bar>)"
  using assms
  by (simp add: flips_def fillna_def length_series_diff to_float_def series_diff_nth fsub_def)

lemma length_compute_returns:
  "length (compute_returns_from_price prices use_log) = length prices"
  by (simp add: compute_returns_from_price_def Let_def length_series_diff length_pct_change)

lemma compute_returns_nth:
  "t < length prices \<Longrightarrow>
   compute_returns_from_price prices use_log ! t =
     (if t = 0 then NaN
      else if use_log then fsub (flog (Fin (prices ! t))) (flog (Fin (prices ! (t - 1))))
      else fsub (fdiv (Fin (prices ! t)) (Fin (prices ! (t - 1)))) (Fin 1))"
  using series_diff_nth [of t "map flog (map Fin prices)"]
        pct_change_nth [of t "map Fin prices"]
  by (auto simp: compute_returns_from_price_def Let_def simp del: map_map)

lemma fsum_Fin: "fsum (map Fin rs) = Fin (sum_list rs)"
  by (induction rs) (simp_all add: fsum_def)

lemma dropna_Fin: "dropna (map Fin rs) = map Fin rs"
  by (induction rs) (simp_all add: dropna_def)

lemma flips_eq:
  "flips signal =
     map Fin (map (\<lambda>t. if t = 0 then 0
                        else \<bar>real_of_int (signal ! t) - real_of_int (signal ! (t - 1))\<bar>)
                  [0..<length signal])"
  by (rule nth_equalityI) (simp_all add: length_flips flips_nth)

lemma flips_sum:
  "series_sum (flips signal) =
     Fin (real_of_int (\<Sum>t = 1..<length signal. \<bar>signal ! t - signal ! (t - 1)\<bar>))"
proof -
  let ?f = "\<lambda>t. if t = 0 then 0
                 else \<bar>real_of_int (signal ! t) - real_of_int (signal ! (t - 1))\<bar>"
  have "series_sum (flips signal) = Fin (sum_list (map ?f [0..<length signal]))"
    unfolding series_sum_def flips_eq dropna_Fin fsum_Fin ..
  also have "sum_list (map ?f [0..<length signal]) = sum ?f {0..<length signal}"
    by (simp add: interv_sum_list_conv_sum_set_nat)
  also have "\<dots> = sum ?f {1..<length signal}"
    by (rule sum.mono_neutral_right) auto
  also have "\<dots> = real_of_int (\<Sum>t = 1..<length signal. \<bar>signal ! t - signal ! (t - 1)\<bar>)"
    by simp
  finally show ?thesis .
qed

lemma py_int_of_int: "py_int (Fin (real_of_int k)) = Inr k"
  by simp

lemma apply_strategy_eq:
  "apply_strategy signal price fee use_log =
     Inr (\<lparr>ret = fillna 0 (compute_returns_from_price price use_log),
           strategy_ret =
             map2 fsub
               (map2 fmul (position signal)
                  (fillna 0 (compute_returns_from_price price use_log)))
               (map (\<lambda>f. fmul f (Fin (fee / 10000))) (flips signal))\<rparr>,
          \<Sum>t = 1..<length signal. \<bar>signal ! t - signal ! (t - 1)\<bar>)"
  unfolding apply_strategy_def Let_def flips_sum py_int_of_int by simp

lemma strategy_ret_nth:
  assumes "length signal = length price" and "t < length price"
  shows "map2 fsub
               (map2 fmul (position signal)
                  (fillna 0 (compute_returns_from_price price use_log)))
               (map (\<lambda>f. fmul f (Fin c)) (flips signal)) ! t =
         fsub (fmul (position signal ! t)
                 (fillna 0 (compute_returns_from_price price use_log) ! t))
              (Fin ((if t = 0 then 0
                     else \<bar>real_of_int (signal ! t) - real_of_int (signal ! (t - 1))\<bar>) * c))"
  using assms
  by (simp add: length_position length_flips length_compute_returns fillna_def flips_nth)




section \<open>Claims about positions and costs\<close>

text \<open>
  C9. For every signal series, the position series has the same rows, \<open>position[0] = 0\<close>,
  and \<open>position[t] = signal[t-1]\<close> for every \<open>t \<ge> 1\<close>.
\<close>

theorem C9_position_lag:
  "length (position signal) = length signal
   \<and> (signal \<noteq> [] \<longrightarrow> position signal ! 0 = Fin 0)
   \<and> (\<forall>t. 0 < t \<and> t < length signal \<longrightarrow>
          position signal ! t = Fin (real_of_int (signal ! (t - 1))))"
  by (simp add: length_position position_nth_0 position_nth)

text \<open>The lag at the signal \<open>[0, 1, 1]\<close>.\<close>

theorem C9_position_lag_witness:
  "length (position [0, 1, 1]) = 3 \<and> position [0, 1, 1] ! 0 = Fin 0
   \<and> position [0, 1, 1] ! 1 = Fin 0 \<and> position [0, 1, 1] ! 2 = Fin 1"
proof -
  note w = C9_position_lag [of "[0, 1, 1]"]
  have "position [0, 1, 1] ! 1 = Fin (real_of_int ([0, 1, 1] ! (1 - 1)))"
    using w by simp
  moreover have "position [0, 1, 1] ! 2 = Fin (real_of_int ([0, 1, 1] ! (2 - 1)))"
    using w by simp
  ultimately show ?thesis using w by simp
qed

text \<open>
  C1, as the code has it. \<open>apply_strategy\<close> always returns; the cost subtracted from
  the strategy return of row \<open>t\<close> is \<open>|signal[t] - signal[t-1]| * (fee_bps / 10000)\<close>,
  nothing at row 0, and the trade count is the sum of \<open>|signal[t] - signal[t-1]|\<close> over
  \<open>t \<ge> 1\<close>: every change of the signal is charged once, in the row where the signal
  changes (one row before the position changes).
\<close>

theorem C1_cost_per_signal_flip:
  assumes "length signal = length price"
  shows "\<exists>out tc. apply_strategy signal price fee use_log = Inr (out, tc)
     \<and> length (strategy_ret out) = length price
     \<and> (\<forall>t<length price.
           strategy_ret out ! t =
             fsub (fmul (position signal ! t) (ret out ! t))
                  (Fin ((if t = 0 then 0
                         else \<bar>real_of_int (signal ! t) - real_of_int (signal ! (t - 1))\<bar>)
                        * (fee / 10000))))
     \<and> tc = (\<Sum>t = 1..<length signal. \<bar>signal ! t - signal ! (t - 1)\<bar>)"
proof -
  have "\<forall>t<length price.
      strategy_ret (fst (projr (apply_strategy signal price fee use_log))) ! t =
        fsub (fmul (position signal ! t)
                (ret (fst (projr (apply_strategy signal price fee use_log))) ! t))
             (Fin ((if t = 0 then 0
                    else \<bar>real_of_int (signal ! t) - real_of_int (signal ! (t - 1))\<bar>)
                   * (fee / 10000)))"
    using assms by (simp add: apply_strategy_eq strategy_ret_nth)
  moreover have "length (strategy_ret (fst (projr (apply_strategy signal price fee use_log))))
      = length price"
    using assms
    by (simp add: apply_strategy_eq length_position length_flips length_compute_returns
        fillna_def)
  ultimately show ?thesis
    by (simp add: apply_strategy_eq)
qed

lemma upt4: "[0..<4] = [0, 1, 2, 3]"
  by (simp add: upt_rec)

text \<open>The cost formula at the signal \<open>[0, 0, 1, 0]\<close> with a fee of 100 basis points.\<close>

theorem C1_cost_per_signal_flip_witness:
  "length [0, 0, 1, 0 :: int] = length [100, 99, 100, 100 :: real]
   \<and> (\<exists>out. apply_strategy [0, 0, 1, 0] [100, 99, 100, 100] 100 False = Inr (out, 2)
          \<and> strategy_ret out ! 2 = fsub (fmul (Fin 0) (ret out ! 2)) (Fin (1 / 100)))"
proof -
  have len: "length [0, 0, 1, 0 :: int] = length [100, 99, 100, 100 :: real]" by simp
  obtain out tc where
    r: "apply_strategy [0, 0, 1, 0] [100, 99, 100, 100] 100 False = Inr (out, tc)"
    and s: "\<forall>t<length [100, 99, 100, 100 :: real].
           strategy_ret out ! t =
             fsub (fmul (position [0, 0, 1, 0] ! t) (ret out ! t))
                  (Fin ((if t = 0 then 0
                         else \<bar>real_of_int ([0, 0, 1, 0] ! t)
                               - real_of_int ([0, 0, 1, 0] ! (t - 1))\<bar>)
                        * (100 / 10000)))"
    and c: "tc = (\<Sum>t = 1..<length [0, 0, 1, 0 :: int].
                   \<bar>[0, 0, 1, 0] ! t - [0, 0, 1, 0] ! (t - 1)\<bar>)"
    using C1_cost_per_signal_flip [OF len, of 100 False] by blast
  have i: "{1..<4::nat} = {1, 2, 3}" by auto
  have "tc = 2" unfolding c by (simp add: i)
  moreover have "position [0, 0, 1, 0] ! 2 = Fin 0"
    by (simp add: position_def shift1_def fillna_def to_float_def)
  moreover have "strategy_ret out ! 2 =
      fsub (fmul (position [0, 0, 1, 0] ! 2) (ret out ! 2)) (Fin (1 / 100))"
    using s by simp
  ultimately show ?thesis using r by simp
qed

text \<open>
  C1 as the specification states it fails. For the closes \<open>[100, 99, 100, 100]\<close> the toy
  signal is \<open>[0, 0, 1, 0]\<close> and the position is \<open>[0, 0, 0, 1]\<close>. In row 2 the position
  does not change, so the specification's flip is 0 and its strategy return would be 0;
  the code subtracts one fee there. The specification's trade count is 1, the code's is 2.
\<close>

theorem C1_counterexample:
  "generate_signals [100, 99, 100, 100] = [0, 0, 1, 0]
   \<and> apply_strategy [0, 0, 1, 0] [100, 99, 100, 100] 100 False =
       Inr (\<lparr>ret = [Fin 0, Fin (- (1 / 100)), Fin (1 / 99), Fin 0],
             strategy_ret = [Fin 0, Fin 0, Fin (- (1 / 100)), Fin (- (1 / 100))]\<rparr>, 2)
   \<and> position [0, 0, 1, 0] = [Fin 0, Fin 0, Fin 0, Fin 1]
   \<and> spec_flip [0, 0, 1, 0] 2 = 0
   \<and> fsub (fmul (Fin 0) (Fin (1 / 99)))
        (Fin (real_of_int (spec_flip [0, 0, 1, 0] 2) * (100 / 10000))) = Fin 0
   \<and> spec_trade_count [0, 0, 1, 0] = 1"
  by (simp add: apply_strategy_def position_def flips_def compute_returns_from_price_def
        generate_signals_def spec_flip_def spec_position_def spec_trade_count_def upt4
        Let_def shift1_def fillna_def dropna_def series_diff_def pct_change_def to_float_def
        fsum_def series_sum_def fsub_def)

section \<open>No look-ahead\<close>

lemma generate_signals_prefix:
  assumes "length c1 = length c2" and "t < length c1" and "\<forall>u\<le>t. c1 ! u = c2 ! u"
  shows "generate_signals c1 ! t = generate_signals c2 ! t"
proof -
  have "c1 ! (t - 1) = c2 ! (t - 1)" and "c1 ! (t - 2) = c2 ! (t - 2)"
    using assms(3) by simp_all
  then show ?thesis
    using assms(1,2) by (simp add: generate_signals_nth)
qed

lemma position_prefix:
  assumes "length s1 = length s2" and "t < length s1" and "\<forall>u<t. s1 ! u = s2 ! u"
  shows "position s1 ! t = position s2 ! t"
proof (cases "t = 0")
  case True
  moreover have "s1 \<noteq> []" and "s2 \<noteq> []" using assms(1,2) by auto
  ultimately show ?thesis by (simp add: position_nth_0)
next
  case False
  then have "s1 ! (t - 1) = s2 ! (t - 1)" using assms(3) by simp
  then show ?thesis using False assms(1,2) by (simp add: position_nth)
qed

lemma flips_prefix:
  assumes "length s1 = length s2" and "t < length s1" and "\<forall>u\<le>t. s1 ! u = s2 ! u"
  shows "flips s1 ! t = flips s2 ! t"
proof -
  have "s1 ! t = s2 ! t" and "s1 ! (t - 1) = s2 ! (t - 1)"
    using assms(3) by simp_all
  then show ?thesis using assms(1,2) by (simp add: flips_nth)
qed

lemma compute_returns_prefix:
  assumes "length p1 = length p2" and "t < length p1" and "\<forall>u\<le>t. p1 ! u = p2 ! u"
  shows "compute_returns_from_price p1 lg ! t = compute_returns_from_price p2 lg ! t"
proof -
  have "p1 ! t = p2 ! t" and "p1 ! (t - 1) = p2 ! (t - 1)"
    using assms(3) by simp_all
  then show ?thesis using assms(1,2) by (simp add: compute_returns_nth)
qed

text \<open>
  C10. Two runs whose close column and execution-price column have the same rows and
  agree at every row \<open>u \<le> t\<close> have the same signal, the same position and the same
  strategy return at row \<open>t\<close>: a price after \<open>t\<close> never changes them. (With
  \<open>--exec close\<close> the two columns are the same column.)
\<close>

theorem C10_no_lookahead:
  assumes len: "length c1 = length c2" "length p1 = length c1" "length p2 = length c2"
    and t: "t < length c1"
    and c: "\<forall>u\<le>t. c1 ! u = c2 ! u"
    and p: "\<forall>u\<le>t. p1 ! u = p2 ! u"
  shows "generate_signals c1 ! t = generate_signals c2 ! t
    \<and> position (generate_signals c1) ! t = position (generate_signals c2) ! t
    \<and> (\<exists>o1 k1 o2 k2.
          apply_strategy (generate_signals c1) p1 fee lg = Inr (o1, k1)
        \<and> apply_strategy (generate_signals c2) p2 fee lg = Inr (o2, k2)
        \<and> strategy_ret o1 ! t = strategy_ret o2 ! t)"
proof -
  let ?s1 = "generate_signals c1" and ?s2 = "generate_signals c2"
  have ls: "length ?s1 = length ?s2" "t < length ?s1"
    using len t by (simp_all add: length_generate_signals)
  have sig: "\<forall>u\<le>t. ?s1 ! u = ?s2 ! u"
  proof (intro allI impI)
    fix u assume "u \<le> t"
    then have "u < length c1" and "\<forall>v\<le>u. c1 ! v = c2 ! v" using t c by auto
    then show "?s1 ! u = ?s2 ! u" using len(1) by (rule generate_signals_prefix [rotated])
  qed
  have pos: "position ?s1 ! t = position ?s2 ! t"
    using ls sig by (intro position_prefix) auto
  have fl: "flips ?s1 ! t = flips ?s2 ! t"
    using ls sig by (intro flips_prefix) auto
  have r: "compute_returns_from_price p1 lg ! t = compute_returns_from_price p2 lg ! t"
    using len t p by (intro compute_returns_prefix) auto
  have l1: "length ?s1 = length p1" "t < length p1"
    and l2: "length ?s2 = length p2" "t < length p2"
    using len t by (simp_all add: length_generate_signals)
  have "map2 fsub (map2 fmul (position ?s1) (fillna 0 (compute_returns_from_price p1 lg)))
                  (map (\<lambda>f. fmul f (Fin (fee / 10000))) (flips ?s1)) ! t
      = map2 fsub (map2 fmul (position ?s2) (fillna 0 (compute_returns_from_price p2 lg)))
                  (map (\<lambda>f. fmul f (Fin (fee / 10000))) (flips ?s2)) ! t"
    using l1 l2 pos fl r
    by (simp add: length_position length_flips length_compute_returns fillna_def)
  then show ?thesis
    using sig pos by (simp add: apply_strategy_eq)
qed

text \<open>Two price series that differ only in the last row, read at row 2.\<close>

theorem C10_no_lookahead_witness:
  "generate_signals [100, 99, 98, 97] ! 2 = generate_signals [100, 99, 98, 50] ! 2
   \<and> position (generate_signals [100, 99, 98, 97]) ! 2
       = position (generate_signals [100, 99, 98, 50]) ! 2
   \<and> (\<exists>o1 k1 o2 k2.
          apply_strategy (generate_signals [100, 99, 98, 97]) [100, 99, 98, 97] 1 False
            = Inr (o1, k1)
        \<and> apply_strategy (generate_signals [100, 99, 98, 50]) [100, 99, 98, 50] 1 False
            = Inr (o2, k2)
        \<and> strategy_ret o1 ! 2 = strategy_ret o2 ! 2)"
proof -
  have a: "\<forall>u\<le>2. [100, 99, 98, 97 :: real] ! u = [100, 99, 98, 50] ! u"
  proof (intro allI impI)
    fix u :: nat assume "u \<le> 2"
    then have "u = 0 \<or> u = 1 \<or> u = 2" by auto
    then show "[100, 99, 98, 97 :: real] ! u = [100, 99, 98, 50] ! u" by auto
  qed
  show ?thesis
    by (rule C10_no_lookahead [of "[100, 99, 98, 97]" "[100, 99, 98, 50]"
          "[100, 99, 98, 97]" "[100, 99, 98, 50]" 2, OF _ _ _ _ a a]) simp_all
qed

section \<open>Reductions and accumulations on finite values\<close>

text \<open>
  On a series of finite values the pandas operations are the usual ones on real numbers.
\<close>

lemma series_mean_Fin:
  "series_mean (map Fin rs) =
     (if rs = [] then NaN else Fin (sum_list rs / real (length rs)))"
  by (simp add: series_mean_def dropna_Fin fsum_Fin)

lemma sqr_Fin:
  "map (\<lambda>v. fmul (fsub (Fin m) v) (fsub (Fin m) v)) (map Fin rs) =
     map Fin (map (\<lambda>r. (m - r) * (m - r)) rs)"
  by (simp add: fsub_def)

lemma sum_sq_nonneg: "0 \<le> sum_list (map (\<lambda>r. (m - r) * (m - r)) rs)" for m :: real
  by (rule sum_list_nonneg) auto

lemma series_std_Fin:
  "series_std (map Fin rs) =
     (if length rs \<le> 1 then NaN
      else Fin (sqrt (sum_list (map (\<lambda>r. (sum_list rs / real (length rs) - r)
                                       * (sum_list rs / real (length rs) - r)) rs)
                      / real (length rs - 1))))"
proof (cases "length rs \<le> 1")
  case True
  then show ?thesis by (simp add: series_std_def dropna_Fin)
next
  case False
  then have n: "real (length rs) \<noteq> 0" "real (length rs - 1) \<noteq> 0" "0 < real (length rs - 1)"
    by auto
  let ?m = "sum_list rs / real (length rs)"
  have "0 \<le> sum_list (map (\<lambda>r. (?m - r) * (?m - r)) rs) / real (length rs - 1)"
    using sum_sq_nonneg [of ?m rs] n(3) by (simp add: divide_nonneg_pos)
  then have "fsqrt (fdiv (Fin (sum_list (map (\<lambda>r. (?m - r) * (?m - r)) rs)))
                         (Fin (real (length rs - 1))))
      = Fin (sqrt (sum_list (map (\<lambda>r. (?m - r) * (?m - r)) rs) / real (length rs - 1)))"
    using n(2) by simp
  moreover have "series_std (map Fin rs) =
      fsqrt (fdiv (fsum (map (\<lambda>v. fmul (fsub (Fin ?m) v) (fsub (Fin ?m) v)) (map Fin rs)))
                  (Fin (real (length rs - 1))))"
    using False unfolding series_std_def dropna_Fin Let_def fsum_Fin
    by (simp del: map_map of_nat_diff)
  ultimately show ?thesis
    using False unfolding sqr_Fin fsum_Fin by simp
qed

lemma accum_from_fmul_Fin:
  "accum_from fmul (Fin a) (map Fin rs) = map Fin (accum_from (*) a rs)"
  by (induction rs arbitrary: a) simp_all

lemma fmax_Fin: "fmax (Fin a) (Fin b) = Fin (max a b)"
  by (simp add: fmax_def max_def)

lemma fmin_Fin: "fmin (Fin a) (Fin b) = Fin (min a b)"
  by (auto simp: fmin_def min_def)

lemma accum_from_fmax_Fin:
  "accum_from fmax (Fin a) (map Fin rs) = map Fin (accum_from max a rs)"
  by (induction rs arbitrary: a) (simp_all add: fmax_Fin)

lemma length_accum_from: "length (accum_from f a xs) = length xs"
  by (induction xs arbitrary: a) simp_all

lemma length_accumulate: "length (accumulate f xs) = length xs"
  by (cases xs) (simp_all add: length_accum_from)

lemma map2_snd: "length xs = length ys \<Longrightarrow> map2 (\<lambda>x r. r) xs ys = ys"
  by (induction xs ys rule: list_induct2) simp_all

lemma na_accum_Fin:
  "na_accum_func f neutral (map Fin rs) = accumulate f (map Fin rs)"
proof -
  have 1: "map (\<lambda>x. if isnan x then neutral else x) (map Fin rs) = map Fin rs"
    by simp
  have 2: "map2 (\<lambda>x r. if isnan x then NaN else r) (map Fin rs) ys
         = map2 (\<lambda>x r. r) (map Fin rs) ys" for ys
    by (rule map_cong [OF refl]) (auto dest!: set_zip_leftD)
  show ?thesis
    unfolding na_accum_func_def 1 2
    by (rule map2_snd) (simp add: length_accumulate)
qed

lemma cumprod_Fin: "cumprod (map Fin rs) = map Fin (accumulate (*) rs)"
  unfolding cumprod_def na_accum_Fin by (cases rs) (simp_all add: accum_from_fmul_Fin)

lemma cummax_Fin: "cummax (map Fin rs) = map Fin (accumulate max rs)"
  unfolding cummax_def na_accum_Fin by (cases rs) (simp_all add: accum_from_fmax_Fin)

lemma fillna_Fin: "fillna v (map Fin rs) = map Fin rs"
  by (simp add: fillna_def)

lemma equity_Fin: "equity (map Fin rs) = map Fin (accumulate (*) (map (\<lambda>r. 1 + r) rs))"
proof -
  have "map (fadd (Fin 1)) (map Fin rs) = map Fin (map (\<lambda>r. 1 + r) rs)" by simp
  then show ?thesis unfolding equity_def fillna_Fin by (simp only: cumprod_Fin)
qed

lemma foldl_fmin_Fin: "foldl fmin (Fin d) (map Fin ds) = Fin (foldl min d ds)"
  by (induction ds arbitrary: d) (simp_all add: fmin_Fin)

lemma series_min_Fin:
  "series_min (map Fin ds) = (if ds = [] then NaN else Fin (Min (set ds)))"
proof (cases ds)
  case Nil
  then show ?thesis by (simp add: series_min_def dropna_def)
next
  case (Cons d ds')
  have "(\<lambda>x y. min y x) = (min :: real \<Rightarrow> real \<Rightarrow> real)"
    by (auto simp: fun_eq_iff)
  then have "foldl min d ds' = Min (set (d # ds'))"
    by (simp only: Min.set_eq_fold foldl_conv_fold)
  then show ?thesis
    using Cons dropna_Fin [of ds] by (simp add: series_min_def foldl_fmin_Fin)
qed

section \<open>Maximum drawdown\<close>

lemma accum_from_mult_pos:
  fixes e :: real
  assumes "0 < e" and "\<forall>f\<in>set fs. 0 < f"
  shows "\<forall>x\<in>set (accum_from (*) e fs). 0 < x"
  using assms
proof (induction fs arbitrary: e)
  case Nil
  then show ?case by simp
next
  case (Cons f fs)
  then have "0 < e * f" by simp
  then have "\<forall>x\<in>set (accum_from (*) (e * f) fs). 0 < x"
    using Cons.prems(2) by (intro Cons.IH) simp_all
  then show ?case using \<open>0 < e * f\<close> by simp
qed

lemma accum_from_max_ge:
  fixes p :: real
  shows "list_all2 (\<lambda>e q. e \<le> q \<and> p \<le> q) es (accum_from max p es)"
proof (induction es arbitrary: p)
  case Nil
  then show ?case by simp
next
  case (Cons e es)
  have "list_all2 (\<lambda>x q. x \<le> q \<and> max p e \<le> q) es (accum_from max (max p e) es)"
    by (rule Cons.IH)
  then have "list_all2 (\<lambda>x q. x \<le> q \<and> p \<le> q) es (accum_from max (max p e) es)"
    by (rule list_all2_mono) auto
  then show ?case by simp
qed



lemma drawdown_Fin:
  assumes "\<forall>r\<in>set rs. - 1 < r"
  shows "drawdown (map Fin rs) =
     map Fin (map2 (\<lambda>e q. e / q - 1) (accumulate (*) (map (\<lambda>r. 1 + r) rs))
                (accumulate max (accumulate (*) (map (\<lambda>r. 1 + r) rs))))"
proof -
  let ?E = "accumulate (*) (map (\<lambda>r. 1 + r) rs)"
  let ?P = "accumulate max ?E"
  have pos: "\<forall>x\<in>set ?E. 0 < x"
  proof (cases rs)
    case Nil
    then show ?thesis by simp
  next
    case (Cons r rs')
    then have "0 < 1 + r" and "\<forall>f\<in>set (map (\<lambda>r. 1 + r) rs'). 0 < f"
      using assms by auto
    then show ?thesis
      using Cons accum_from_mult_pos [of "1 + r" "map (\<lambda>r. 1 + r) rs'"] by simp
  qed
  have ppos: "\<forall>(e, q)\<in>set (zip ?E ?P). q \<noteq> 0"
  proof (cases ?E)
    case Nil
    then show ?thesis by simp
  next
    case (Cons e es)
    then have e: "0 < e" using pos by simp
    have "list_all2 (\<lambda>x q. x \<le> q \<and> e \<le> q) es (accum_from max e es)"
      by (rule accum_from_max_ge)
    then have "\<forall>(x, q)\<in>set (zip es (accum_from max e es)). e \<le> q"
      by (auto simp: list_all2_iff)
    then show ?thesis using Cons e by auto
  qed
  have "map2 (\<lambda>e p. fsub (fdiv e p) (Fin 1)) (map Fin ?E) (map Fin ?P)
      = map (\<lambda>(e, q). Fin (e / q - 1)) (zip ?E ?P)"
    unfolding zip_map_map map_map
    by (rule map_cong [OF refl]) (use ppos in \<open>auto simp: fsub_def\<close>)
  then show ?thesis
    unfolding drawdown_def Let_def equity_Fin cummax_Fin by (simp add: case_prod_beta)
qed





section \<open>Sharpe ratio of a sample\<close>

lemma dropna_idem: "dropna (dropna xs) = dropna xs"
  by (simp add: dropna_def)

lemma series_std_dropna: "series_std (dropna xs) = series_std xs"
  by (simp add: series_std_def dropna_idem)

lemma series_mean_dropna: "series_mean (dropna xs) = series_mean xs"
  by (simp add: series_mean_def dropna_idem)

lemma summary_n: "n (compute_summary_metrics xs) = length (dropna xs)"
  by (simp add: compute_summary_metrics_def Let_def)

lemma summary_mean: "mean_daily_excess (compute_summary_metrics xs) = series_mean xs"
  by (simp add: compute_summary_metrics_def Let_def series_mean_dropna)

lemma summary_std: "std_daily_excess (compute_summary_metrics xs) = series_std xs"
  by (simp add: compute_summary_metrics_def Let_def series_std_dropna)

lemma summary_sharpe:
  "sharpe_annualized (compute_summary_metrics xs) =
     (if \<not> isnan (series_std xs) then annualized_sharpe (series_mean xs) (series_std xs)
      else NaN)"
  by (simp add: compute_summary_metrics_def Let_def series_std_dropna series_mean_dropna)

text \<open>
  The rest of this section evaluates \<open>Series.mean()\<close>, \<open>Series.std(ddof=1)\<close> and
  \<open>annualized_sharpe\<close> in float64 on three excess returns that all equal \<open>0.1\<close>, one
  rounding after the other.
\<close>

lemma floor_log2:
  assumes "2 powr of_int e \<le> x" and "x < 2 powr (of_int e + 1)"
  shows "\<lfloor>log 2 x\<rfloor> = e"
proof -
  have x: "0 < x" using assms(1) powr_gt_zero [of 2 "of_int e"] by linarith
  have "of_int e \<le> log 2 x" using assms(1) x by (simp add: le_log_iff)
  moreover have "log 2 x < of_int e + 1" using assms(2) x by (simp add: log_less_iff)
  ultimately show ?thesis by (simp add: floor_unique)
qed

lemma float64_eval:
  assumes "2 powr of_int e \<le> \<bar>x\<bar>" and "\<bar>x\<bar> < 2 powr (of_int e + 1)"
    and "round_even (x * 2 powr (52 - of_int e)) = k"
  shows "float64 x = of_int k * 2 powr (of_int e - 52)"
proof -
  have "x \<noteq> 0" using assms(1) powr_gt_zero [of 2 "of_int e"] by auto
  then show ?thesis
    using floor_log2 [OF assms(1,2)] assms(3) by (simp add: float64_def)
qed

lemma round_even_unique:
  assumes "of_int k - 1 / 2 < y" and "y < of_int k + 1 / 2"
  shows "round_even y = k"
proof -
  have "\<lfloor>y\<rfloor> = k \<or> \<lfloor>y\<rfloor> = k - 1"
    using assms by linarith
  then show ?thesis
  proof
    assume f: "\<lfloor>y\<rfloor> = k"
    then have "y - of_int k < 1 / 2" using assms by linarith
    then show ?thesis using f by (simp add: round_even_def)
  next
    assume f: "\<lfloor>y\<rfloor> = k - 1"
    then have "1 / 2 < y - of_int (k - 1)" using assms by simp
    then show ?thesis using f by (simp add: round_even_def)
  qed
qed

lemma round_even_int: "round_even (of_int k) = k"
  by (simp add: round_even_def)

lemma powr_neg_nat: "(2::real) powr (- real m) = 1 / 2 ^ m"
  by (simp add: powr_minus powr_realpow divide_inverse)

lemma float64_below_one:
  assumes "1 / 2 ^ m \<le> \<bar>x\<bar>" and "\<bar>x\<bar> < 2 / 2 ^ m"
    and "round_even (x * 2 ^ (52 + m)) = k"
  shows "float64 x = of_int k / 2 ^ (52 + m)"
proof -
  have a: "2 powr of_int (- int m) = (1::real) / 2 ^ m"
    using powr_neg_nat [of m] by simp
  have "2 powr (of_int (- int m) + 1) = 2 powr of_int (- int m) * (2::real) powr 1"
    by (simp only: powr_add)
  then have "2 powr (of_int (- int m) + 1) = 2 powr of_int (- int m) * (2::real)"
    by (simp only: powr_one zero_less_numeral)
  then have b: "2 powr (of_int (- int m) + 1) = (2::real) / 2 ^ m"
    using a by simp
  have "52 - of_int (- int m) = real (52 + m)" by simp
  then have c: "2 powr (52 - of_int (- int m)) = (2::real) ^ (52 + m)"
    by (simp only: powr_realpow zero_less_numeral)
  have "of_int (- int m) - 52 = - real (52 + m)" by simp
  then have d: "2 powr (of_int (- int m) - 52) = (1::real) / 2 ^ (52 + m)"
    by (simp only: powr_neg_nat)
  have "float64 x = of_int k * 2 powr (of_int (- int m) - 52)"
    by (rule float64_eval) (simp_all only: a b c assms)
  then show ?thesis by (simp only: d) simp
qed

lemma float64_exact:
  assumes "1 / 2 ^ m \<le> \<bar>x\<bar>" and "\<bar>x\<bar> < 2 / 2 ^ m"
    and "x * 2 ^ (52 + m) = of_int k"
  shows "float64 x = x"
proof -
  have "float64 x = of_int k / 2 ^ (52 + m)"
    using assms(1,2) by (rule float64_below_one) (simp add: assms(3) round_even_int)
  then show ?thesis using assms(3) [symmetric] by simp
qed

lemma round_even_tie: "round_even (10808639105689191 / 2) = 5404319552844596"
  by (simp add: round_even_def Let_def)

lemma f64_tenth: "float64 (1 / 10) = 3602879701896397 / 2 ^ 55"
proof -
  have "round_even ((1 / 10) * 2 ^ (52 + 4)) = 7205759403792794"
    by (rule round_even_unique) simp_all
  then have "float64 (1 / 10) = of_int 7205759403792794 / 2 ^ (52 + 4)"
    by (intro float64_below_one) simp_all
  then show ?thesis by simp
qed


lemma float64_above_one:
  assumes "2 ^ m \<le> \<bar>x\<bar>" and "\<bar>x\<bar> < 2 * 2 ^ m" and "m \<le> 52"
    and "round_even (x * 2 ^ (52 - m)) = k"
  shows "float64 x = of_int k / 2 ^ (52 - m)"
proof -
  have a: "2 powr of_int (int m) = (2::real) ^ m"
    by (simp add: powr_realpow)
  have "2 powr (of_int (int m) + 1) = 2 powr of_int (int m) * (2::real) powr 1"
    by (simp only: powr_add)
  then have b: "2 powr (of_int (int m) + 1) = 2 * (2::real) ^ m"
    using a by simp
  have "52 - of_int (int m) = real (52 - m)" using assms(3) by simp
  then have c: "2 powr (52 - of_int (int m)) = (2::real) ^ (52 - m)"
    by (simp only: powr_realpow zero_less_numeral)
  have "of_int (int m) - 52 = - real (52 - m)" using assms(3) by simp
  then have d: "2 powr (of_int (int m) - 52) = (1::real) / 2 ^ (52 - m)"
    by (simp only: powr_neg_nat)
  have "float64 x = of_int k * 2 powr (of_int (int m) - 52)"
    by (rule float64_eval) (simp_all only: a b c assms)
  then show ?thesis by (simp only: d) simp
qed

lemma float64_large:
  assumes "2 ^ m \<le> \<bar>x\<bar>" and "\<bar>x\<bar> < 2 * 2 ^ m" and "52 \<le> m"
    and "round_even (x / 2 ^ (m - 52)) = k"
  shows "float64 x = of_int k * 2 ^ (m - 52)"
proof -
  have a: "2 powr of_int (int m) = (2::real) ^ m"
    by (simp add: powr_realpow)
  have "2 powr (of_int (int m) + 1) = 2 powr of_int (int m) * (2::real) powr 1"
    by (simp only: powr_add)
  then have b: "2 powr (of_int (int m) + 1) = 2 * (2::real) ^ m"
    using a by simp
  have "52 - of_int (int m) = - real (m - 52)" using assms(3) by simp
  then have "2 powr (52 - of_int (int m)) = (1::real) / 2 ^ (m - 52)"
    by (simp only: powr_neg_nat)
  then have c: "x * 2 powr (52 - of_int (int m)) = x / 2 ^ (m - 52)"
    by simp
  have "of_int (int m) - 52 = real (m - 52)" using assms(3) by simp
  then have d: "2 powr (of_int (int m) - 52) = (2::real) ^ (m - 52)"
    by (simp only: powr_realpow zero_less_numeral)
  have "float64 x = of_int k * 2 powr (of_int (int m) - 52)"
    by (rule float64_eval) (simp_all only: a b c assms)
  then show ?thesis by (simp only: d)
qed

lemma sqrt_scale: "sqrt a * 2 ^ j = sqrt (a * 2 ^ (2 * j))"
  by (simp add: real_sqrt_mult power_even_eq)

lemma round_even_sqrt:
  assumes "(of_int k - 1 / 2)\<^sup>2 < a" and "a < (of_int k + 1 / 2)\<^sup>2" and "0 \<le> k"
  shows "round_even (sqrt a) = k"
proof (rule round_even_unique)
  show "of_int k - 1 / 2 < sqrt a"
    using assms(1) by (rule real_less_rsqrt)
  have "0 \<le> (of_int k + 1 / 2 :: real)" using assms(3) by simp
  then show "sqrt a < of_int k + 1 / 2"
    using assms(2) by (intro real_less_lsqrt) simp_all
qed

lemma sqrt_between:
  assumes "l\<^sup>2 \<le> a" and "a < u\<^sup>2" and "0 \<le> u"
  shows "l \<le> \<bar>sqrt a\<bar> \<and> \<bar>sqrt a\<bar> < u"
proof -
  have "0 \<le> a" using assms(1) zero_le_power2 [of l] by linarith
  then have "\<bar>sqrt a\<bar> = sqrt a" by simp
  moreover have "l \<le> sqrt a" using assms(1) by (rule real_le_rsqrt)
  moreover have "sqrt a < u" using assms(3,2) by (intro real_less_lsqrt) simp_all
  ultimately show ?thesis by simp
qed

text \<open>The operations of the replay, one rounding each.\<close>

lemma f64_d: "float64 (3602879701896397 / 2 ^ 55) = 3602879701896397 / 2 ^ 55"
  by (rule float64_exact [where m = 4 and k = 7205759403792794]) simp_all

lemma f64_d_plus_d: "float64 (3602879701896397 / 2 ^ 55 + 3602879701896397 / 2 ^ 55)
    = 3602879701896397 / 2 ^ 54"
proof -
  have "float64 (3602879701896397 / 2 ^ 54) = 3602879701896397 / 2 ^ 54"
    by (rule float64_exact [where m = 3 and k = 7205759403792794]) simp_all
  then show ?thesis by simp
qed

lemma f64_2d_plus_d: "float64 (3602879701896397 / 2 ^ 54 + 3602879701896397 / 2 ^ 55)
    = 5404319552844596 / 2 ^ 54"
proof -
  have "round_even ((3602879701896397 / 2 ^ 54 + 3602879701896397 / 2 ^ 55)
          * 2 ^ (52 + 2)) = 5404319552844596"
    using round_even_tie by simp
  then have "float64 (3602879701896397 / 2 ^ 54 + 3602879701896397 / 2 ^ 55)
      = of_int 5404319552844596 / 2 ^ (52 + 2)"
    by (intro float64_below_one) simp_all
  then show ?thesis by simp
qed

lemma f64_mean: "float64 (5404319552844596 / 2 ^ 54 / 3) = 7205759403792795 / 2 ^ 56"
proof -
  have "round_even (5404319552844596 / 2 ^ 54 / 3 * 2 ^ (52 + 4)) = 7205759403792795"
    by (rule round_even_unique) simp_all
  then have "float64 (5404319552844596 / 2 ^ 54 / 3)
      = of_int 7205759403792795 / 2 ^ (52 + 4)"
    by (intro float64_below_one) simp_all
  then show ?thesis by simp
qed

lemma f64_dev: "float64 (7205759403792795 / 2 ^ 56 - 3602879701896397 / 2 ^ 55) = 1 / 2 ^ 56"
proof -
  have "float64 (1 / 2 ^ 56) = 1 / 2 ^ 56"
    by (rule float64_exact [where m = 56 and k = 4503599627370496]) simp_all
  then show ?thesis by simp
qed

lemma f64_dev_sq: "float64 (1 / 2 ^ 56 * (1 / 2 ^ 56)) = 1 / 2 ^ 112"
proof -
  have "float64 (1 / 2 ^ 112) = 1 / 2 ^ 112"
    by (rule float64_exact [where m = 112 and k = 4503599627370496]) simp_all
  then show ?thesis by simp
qed

lemma f64_sq: "float64 (1 / 2 ^ 112) = 1 / 2 ^ 112"
  by (rule float64_exact [where m = 112 and k = 4503599627370496]) simp_all

lemma f64_sq_plus_sq: "float64 (1 / 2 ^ 112 + 1 / 2 ^ 112) = 1 / 2 ^ 111"
proof -
  have "float64 (1 / 2 ^ 111) = 1 / 2 ^ 111"
    by (rule float64_exact [where m = 111 and k = 4503599627370496]) simp_all
  then show ?thesis by simp
qed

lemma f64_2sq_plus_sq: "float64 (1 / 2 ^ 111 + 1 / 2 ^ 112) = 3 / 2 ^ 112"
proof -
  have "float64 (3 / 2 ^ 112) = 3 / 2 ^ 112"
    by (rule float64_exact [where m = 111 and k = 6755399441055744]) simp_all
  then show ?thesis by simp
qed

lemma f64_var: "float64 (3 / 2 ^ 112 / 2) = 3 / 2 ^ 113"
proof -
  have "float64 (3 / 2 ^ 113) = 3 / 2 ^ 113"
    by (rule float64_exact [where m = 112 and k = 6755399441055744]) simp_all
  then show ?thesis by simp
qed

lemma f64_std: "float64 (sqrt (3 / 2 ^ 113)) = 5515760546423086 / 2 ^ 108"
proof -
  have r: "1 / 2 ^ 56 \<le> \<bar>sqrt (3 / 2 ^ 113)\<bar> \<and> \<bar>sqrt (3 / 2 ^ 113)\<bar> < 2 / 2 ^ 56"
    by (rule sqrt_between) (simp_all add: power2_eq_square)
  have "round_even (sqrt (3 / 2 ^ 113 * 2 ^ (2 * (52 + 56)))) = 5515760546423086"
    by (rule round_even_sqrt) (simp_all add: power2_eq_square)
  then have "round_even (sqrt (3 / 2 ^ 113) * 2 ^ (52 + 56)) = 5515760546423086"
    by (simp only: sqrt_scale)
  then have "float64 (sqrt (3 / 2 ^ 113)) = of_int 5515760546423086 / 2 ^ (52 + 56)"
    using r by (intro float64_below_one) simp_all
  then show ?thesis by simp
qed

lemma f64_ratio: "float64 (7205759403792795 / 2 ^ 56 / (5515760546423086 / 2 ^ 108))
    = 5883477916184627"
proof -
  have "round_even (7205759403792795 / 2 ^ 56 / (5515760546423086 / 2 ^ 108)
          * 2 ^ (52 - 52)) = 5883477916184627"
    by (rule round_even_unique) simp_all
  then have "float64 (7205759403792795 / 2 ^ 56 / (5515760546423086 / 2 ^ 108))
      = of_int 5883477916184627 / 2 ^ (52 - 52)"
    by (intro float64_above_one) simp_all
  then show ?thesis by simp
qed

lemma f64_sqrt_252: "float64 (sqrt 252) = 8936553463969119 / 2 ^ 49"
proof -
  have r: "2 ^ 3 \<le> \<bar>sqrt 252\<bar> \<and> \<bar>sqrt 252\<bar> < 2 * 2 ^ 3"
    by (rule sqrt_between) (simp_all add: power2_eq_square)
  have "round_even (sqrt (252 * 2 ^ (2 * (52 - 3)))) = 8936553463969119"
    by (rule round_even_sqrt) (simp_all add: power2_eq_square)
  then have "round_even (sqrt 252 * 2 ^ (52 - 3)) = 8936553463969119"
    by (simp only: sqrt_scale)
  then have "float64 (sqrt 252) = of_int 8936553463969119 / 2 ^ (52 - 3)"
    using r by (intro float64_above_one) simp_all
  then show ?thesis by simp
qed

lemma f64_sharpe: "float64 (5883477916184627 * (8936553463969119 / 2 ^ 49)) = 93397316462190256"
proof -
  have "round_even (5883477916184627 * (8936553463969119 / 2 ^ 49) / 2 ^ (56 - 52))
      = 5837332278886891"
    by (rule round_even_unique) simp_all
  then have "float64 (5883477916184627 * (8936553463969119 / 2 ^ 49))
      = of_int 5837332278886891 * 2 ^ (56 - 52)"
    by (intro float64_large) simp_all
  then show ?thesis by simp
qed

lemma sum64_three:
  "sum64 [Fin a, Fin b, Fin c] = Fin (float64 (float64 (float64 a + b) + c))"
  by (simp add: sum64_def)

lemma series_mean64_three:
  "series_mean64 [Fin a, Fin b, Fin c] = fround (fdiv (sum64 [Fin a, Fin b, Fin c]) (Fin 3))"
  by (simp add: series_mean64_def dropna_def)

lemma series_std64_three:
  "series_std64 [Fin a, Fin b, Fin c] =
     fround (fsqrt (fround (fdiv (sum64
       (map (\<lambda>v. fround (fmul
               (fround (fsub (fround (fdiv (sum64 [Fin a, Fin b, Fin c]) (Fin 3))) v))
               (fround (fsub (fround (fdiv (sum64 [Fin a, Fin b, Fin c]) (Fin 3))) v))))
          [Fin a, Fin b, Fin c])) (Fin 2))))"
  by (simp add: series_std64_def dropna_def Let_def)

lemma fdiv_Fin: "b \<noteq> 0 \<Longrightarrow> fdiv (Fin a) (Fin b) = Fin (a / b)"
  by simp

lemma fsub_Fin: "fsub (Fin a) (Fin b) = Fin (a - b)"
  by (simp add: fsub_def)

lemma fsqrt_Fin: "0 \<le> a \<Longrightarrow> fsqrt (Fin a) = Fin (sqrt a)"
  by simp

lemma sum64_tenth:
  "sum64 [Fin (3602879701896397 / 2 ^ 55), Fin (3602879701896397 / 2 ^ 55),
          Fin (3602879701896397 / 2 ^ 55)] = Fin (5404319552844596 / 2 ^ 54)"
  by (simp only: sum64_three f64_d f64_d_plus_d f64_2d_plus_d)

lemma series_mean64_tenth:
  "series_mean64 [Fin (3602879701896397 / 2 ^ 55), Fin (3602879701896397 / 2 ^ 55),
                  Fin (3602879701896397 / 2 ^ 55)] = Fin (7205759403792795 / 2 ^ 56)"
proof -
  have "fdiv (Fin (5404319552844596 / 2 ^ 54)) (Fin 3) = Fin (5404319552844596 / 2 ^ 54 / 3)"
    by (rule fdiv_Fin) simp
  then show ?thesis
    by (simp only: series_mean64_three sum64_tenth fround.simps f64_mean)
qed

lemma series_std64_tenth:
  "series_std64 [Fin (3602879701896397 / 2 ^ 55), Fin (3602879701896397 / 2 ^ 55),
                 Fin (3602879701896397 / 2 ^ 55)] = Fin (5515760546423086 / 2 ^ 108)"
proof -
  have avg: "fround (fdiv (Fin (5404319552844596 / 2 ^ 54)) (Fin 3))
      = Fin (7205759403792795 / 2 ^ 56)"
  proof -
    have "fdiv (Fin (5404319552844596 / 2 ^ 54)) (Fin 3)
        = Fin (5404319552844596 / 2 ^ 54 / 3)"
      by (rule fdiv_Fin) simp
    then show ?thesis by (simp only: fround.simps f64_mean)
  qed
  have sqr: "fround (fmul
        (fround (fsub (Fin (7205759403792795 / 2 ^ 56)) (Fin (3602879701896397 / 2 ^ 55))))
        (fround (fsub (Fin (7205759403792795 / 2 ^ 56)) (Fin (3602879701896397 / 2 ^ 55)))))
      = Fin (1 / 2 ^ 112)"
    by (simp only: fsub_Fin fround.simps f64_dev fmul.simps f64_dev_sq)
  have ssq: "sum64 [Fin (1 / 2 ^ 112), Fin (1 / 2 ^ 112), Fin (1 / 2 ^ 112)]
      = Fin (3 / 2 ^ 112)"
    by (simp only: sum64_three f64_sq f64_sq_plus_sq f64_2sq_plus_sq)
  have var: "fround (fdiv (Fin (3 / 2 ^ 112)) (Fin 2)) = Fin (3 / 2 ^ 113)"
  proof -
    have "fdiv (Fin (3 / 2 ^ 112)) (Fin 2) = Fin (3 / 2 ^ 112 / 2)"
      by (rule fdiv_Fin) simp
    then show ?thesis by (simp only: fround.simps f64_var)
  qed
  have root: "fround (fsqrt (Fin (3 / 2 ^ 113))) = Fin (5515760546423086 / 2 ^ 108)"
  proof -
    have "fsqrt (Fin (3 / 2 ^ 113)) = Fin (sqrt (3 / 2 ^ 113))"
      by (rule fsqrt_Fin) simp
    then show ?thesis by (simp only: fround.simps f64_std)
  qed
  show ?thesis
    by (simp only: series_std64_three sum64_tenth avg list.map sqr ssq var root)
qed

lemma annualized_sharpe64_tenth:
  "annualized_sharpe64 (Fin (7205759403792795 / 2 ^ 56)) (Fin (5515760546423086 / 2 ^ 108))
     = Fin 93397316462190256"
proof -
  have ne: "Fin (5515760546423086 / 2 ^ 108) \<noteq> Fin 0"
    by simp
  have "fdiv (Fin (7205759403792795 / 2 ^ 56)) (Fin (5515760546423086 / 2 ^ 108))
      = Fin (7205759403792795 / 2 ^ 56 / (5515760546423086 / 2 ^ 108))"
    by (rule fdiv_Fin) simp
  then have q: "fround (fdiv (Fin (7205759403792795 / 2 ^ 56))
        (Fin (5515760546423086 / 2 ^ 108))) = Fin 5883477916184627"
    by (simp only: fround.simps f64_ratio)
  have r: "fround (Fin (sqrt TRADING_DAYS)) = Fin (8936553463969119 / 2 ^ 49)"
    by (simp only: TRADING_DAYS_def fround.simps f64_sqrt_252)
  have p: "fround (fmul (Fin 5883477916184627) (Fin (8936553463969119 / 2 ^ 49)))
      = Fin 93397316462190256"
    by (simp only: fmul.simps fround.simps f64_sharpe)
  show ?thesis
    by (simp only: annualized_sharpe64_def ne if_False q r p)
qed

text \<open>
  Claim C5 (the annualized Sharpe ratio is undefined whenever all excess returns are
  identical). \<open>annualized_sharpe\<close> returns NaN when \<open>std_daily == 0\<close>, a comparison of
  the float64 standard deviation with zero. On three excess returns that all equal
  \<open>0.1\<close>, that is the double \<open>3602879701896397 / 2^55\<close>, the sum \<open>(0.1 + 0.1) + 0.1\<close>
  is a tie and rounds up to \<open>0.30000000000000004\<close>, the mean is the double next above
  \<open>0.1\<close>, every deviation from the mean is \<open>2^-56\<close>, and the standard deviation is
  \<open>5515760546423086 / 2^108\<close> (about \<open>1.7e-17\<close>), not zero. The test does not fire and
  \<open>sharpe_annualized\<close> is the number \<open>93397316462190256\<close> (\<open>9.339731646219026e16\<close>),
  not NaN.
\<close>

theorem C5_identical_inexact_returns:
  "float64 (1 / 10) = 3602879701896397 / 2 ^ 55 \<and>
   series_mean64 (replicate 3 (Fin (float64 (1 / 10)))) = Fin (7205759403792795 / 2 ^ 56) \<and>
   series_std64 (replicate 3 (Fin (float64 (1 / 10)))) = Fin (5515760546423086 / 2 ^ 108) \<and>
   sharpe_annualized64 (replicate 3 (Fin (float64 (1 / 10)))) = Fin 93397316462190256"
proof -
  have l: "replicate 3 (Fin (float64 (1 / 10)))
      = [Fin (3602879701896397 / 2 ^ 55), Fin (3602879701896397 / 2 ^ 55),
         Fin (3602879701896397 / 2 ^ 55)]"
    by (simp only: f64_tenth numeral_3_eq_3 replicate.simps)
  have d: "dropna [Fin (3602879701896397 / 2 ^ 55), Fin (3602879701896397 / 2 ^ 55),
         Fin (3602879701896397 / 2 ^ 55)]
      = [Fin (3602879701896397 / 2 ^ 55), Fin (3602879701896397 / 2 ^ 55),
         Fin (3602879701896397 / 2 ^ 55)]"
    by (simp add: dropna_def)
  have n: "\<not> isnan (Fin (5515760546423086 / 2 ^ 108))"
    by simp
  have m: "series_mean64 (replicate 3 (Fin (float64 (1 / 10))))
      = Fin (7205759403792795 / 2 ^ 56)"
    unfolding l by (rule series_mean64_tenth)
  have s: "series_std64 (replicate 3 (Fin (float64 (1 / 10))))
      = Fin (5515760546423086 / 2 ^ 108)"
    unfolding l by (rule series_std64_tenth)
  have "sharpe_annualized64 (replicate 3 (Fin (float64 (1 / 10)))) = Fin 93397316462190256"
    unfolding sharpe_annualized64_def Let_def l d series_mean64_tenth series_std64_tenth
    using n annualized_sharpe64_tenth by simp
  with f64_tenth m s show ?thesis
    by (intro conjI)
qed


section \<open>The run, stage by stage\<close>

lemma run_backtest_close:
  assumes "exec_price a = ExecClose" and "riskfree_col a = None"
    and "apply_strategy (generate_signals (close df)) (close df) (fee_bps a)
           (use_log_returns a) = Inr (out, tc)"
  shows "run_backtest a df =
     Inr \<lparr>summary = compute_summary_metrics (strategy_ret out), trade_count = tc,
          last_roll = last_defined (rolling_sharpe_annualized (strategy_ret out)
                        (nat (max 5 (window a))))\<rparr>"
  using assms by (simp add: run_backtest_def price_column_def excess_returns_def Let_def)


lemma summary_cumulative_return:
  "cumulative_return (compute_summary_metrics xs) =
     (if dropna xs \<noteq> [] then fsub (last (cumprod (map (fadd (Fin 1)) (dropna xs)))) (Fin 1)
      else NaN)"
  by (simp add: compute_summary_metrics_def Let_def)

lemma summary_max_drawdown:
  "max_drawdown (compute_summary_metrics xs) = max_drawdown_from_returns (dropna xs)"
  by (simp add: compute_summary_metrics_def Let_def)

lemma summary_hit_rate:
  "hit_rate (compute_summary_metrics xs) =
     (if dropna xs \<noteq> []
      then Fin (real (length (filter (\<lambda>x. flt (Fin 0) x) (dropna xs)))
                / real (length (dropna xs)))
      else NaN)"
  by (simp add: compute_summary_metrics_def Let_def)

lemma summary_sortino:
  "sortino_annualized (compute_summary_metrics xs) =
     (if 1 < length (filter (\<lambda>x. flt x (Fin 0)) (dropna xs))
         \<and> \<not> isnan (series_std (filter (\<lambda>x. flt x (Fin 0)) (dropna xs)))
      then annualized_sortino (series_mean xs)
             (series_std (filter (\<lambda>x. flt x (Fin 0)) (dropna xs)))
      else NaN)"
  by (simp add: compute_summary_metrics_def Let_def series_mean_dropna)

lemma upt5: "[0..<5] = [0, 1, 2, 3, 4]"
  by (simp add: upt_rec)

lemma C2_stage_returns:
  "compute_returns_from_price [100, 101, 99, 99, 105] False =
     [NaN, Fin (1 / 100), Fin (- (2 / 101)), Fin 0, Fin (2 / 33)]"
  by (simp add: compute_returns_from_price_def pct_change_def shift1_def fsub_def)

lemma C2_stage_signal: "generate_signals [100, 101, 99, 99, 105] = [0, 0, 0, 1, 0]"
  by (simp add: generate_signals_def pct_change_def shift1_def fsub_def)

lemma C2_stage_strategy:
  "apply_strategy [0, 0, 0, 1, 0] [100, 101, 99, 99, 105] 0 False =
     Inr (\<lparr>ret = [Fin 0, Fin (1 / 100), Fin (- (2 / 101)), Fin 0, Fin (2 / 33)],
           strategy_ret = [Fin 0, Fin 0, Fin 0, Fin 0, Fin (2 / 33)]\<rparr>, 2)"
  by (simp add: apply_strategy_def position_def flips_def C2_stage_returns
        Let_def shift1_def fillna_def dropna_def series_diff_def to_float_def
        fsum_def series_sum_def fsub_def)

lemma C2_stage_cum:
  "cumulative_return (compute_summary_metrics [Fin 0, Fin 0, Fin 0, Fin 0, Fin (2 / 33)])
     = Fin (2 / 33)"
  by (simp add: summary_cumulative_return dropna_def cumprod_def na_accum_func_def fsub_def)

text \<open>
  C2, as the code computes it. For the closes \<open>[100, 101, 99, 99, 105]\<close>, no fee and
  simple returns: the returns are \<open>[undefined, 1/100, -2/101, 0, 2/33]\<close>, which round to
  \<open>[undefined, 0.01, -0.0198, 0.0, 0.0606]\<close>; the toy signal is \<open>[0, 0, 0, 1, 0]\<close> (the
  return of row 3 is 0, not negative, so the signal of row 4 is 0); the position is
  \<open>[0, 0, 0, 0, 1]\<close>; the strategy return is \<open>[0, 0, 0, 0, 2/33]\<close>; and the run reports
  a cumulative return of \<open>2/33\<close>, about 6.06 percent.
\<close>

theorem C2_scenario:
  "compute_returns_from_price [100, 101, 99, 99, 105] False =
     [NaN, Fin (1 / 100), Fin (- (2 / 101)), Fin 0, Fin (2 / 33)]
   \<and> \<bar>- (2 / 101) - (- (198 / 10000))\<bar> < (5 / 100000 :: real)
   \<and> \<bar>2 / 33 - 606 / 10000\<bar> < (5 / 100000 :: real)
   \<and> generate_signals [100, 101, 99, 99, 105] = [0, 0, 0, 1, 0]
   \<and> position (generate_signals [100, 101, 99, 99, 105])
       = [Fin 0, Fin 0, Fin 0, Fin 0, Fin 1]
   \<and> apply_strategy (generate_signals [100, 101, 99, 99, 105]) [100, 101, 99, 99, 105]
         0 False
       = Inr (\<lparr>ret = [Fin 0, Fin (1 / 100), Fin (- (2 / 101)), Fin 0, Fin (2 / 33)],
             strategy_ret = [Fin 0, Fin 0, Fin 0, Fin 0, Fin (2 / 33)]\<rparr>, 2)
   \<and> (\<exists>r. run_backtest
              \<lparr>fee_bps = 0, use_log_returns = False, exec_price = ExecClose,
               window = 60, riskfree_col = None\<rparr>
              \<lparr>close = [100, 101, 99, 99, 105], open_px = None, extra = Map.empty\<rparr>
            = Inr r
          \<and> cumulative_return (summary r) = Fin (2 / 33))"
proof -
  have "position [0, 0, 0, 1, 0] = [Fin 0, Fin 0, Fin 0, Fin 0, Fin 1]"
    by (simp add: position_def shift1_def fillna_def to_float_def)
  moreover have "\<exists>r. run_backtest
              \<lparr>fee_bps = 0, use_log_returns = False, exec_price = ExecClose,
               window = 60, riskfree_col = None\<rparr>
              \<lparr>close = [100, 101, 99, 99, 105], open_px = None, extra = Map.empty\<rparr>
            = Inr r
          \<and> cumulative_return (summary r) = Fin (2 / 33)"
    by (subst run_backtest_close [where out = "\<lparr>ret = [Fin 0, Fin (1 / 100),
          Fin (- (2 / 101)), Fin 0, Fin (2 / 33)],
          strategy_ret = [Fin 0, Fin 0, Fin 0, Fin 0, Fin (2 / 33)]\<rparr>" and tc = 2])
       (simp_all add: C2_stage_signal C2_stage_strategy C2_stage_cum)
  ultimately show ?thesis
    by (simp add: C2_stage_returns C2_stage_signal C2_stage_strategy)
qed

text \<open>
  C2 as the specification states it gives the signal \<open>[0, 0, 0, 1, 1]\<close>; the code's
  signal of row 4 is 0.
\<close>

theorem C2_counterexample:
  "generate_signals [100, 101, 99, 99, 105] \<noteq> [0, 0, 0, 1, 1]
   \<and> generate_signals [100, 101, 99, 99, 105] ! 4 = 0"
  by (simp add: C2_stage_signal)

section \<open>A constant price series\<close>

lemma replicate10: "replicate 10 x = [x, x, x, x, x, x, x, x, x, x]"
  by (simp add: numeral_eq_Suc)

lemma replicate9: "replicate 9 x = [x, x, x, x, x, x, x, x, x]"
  by (simp add: numeral_eq_Suc)

lemma const_returns:
  assumes "0 < c"
  shows "compute_returns_from_price (replicate 10 c) False = NaN # replicate 9 (Fin 0)"
  using assms
  by (simp add: replicate10 replicate9 compute_returns_from_price_def pct_change_def
      shift1_def fsub_def)

lemma const_signal:
  assumes "0 < c"
  shows "generate_signals (replicate 10 c) = replicate 10 0"
  using assms
  by (simp add: replicate10 generate_signals_def pct_change_def shift1_def fsub_def)

lemma const_strategy:
  assumes "0 < c"
  shows "apply_strategy (replicate 10 0) (replicate 10 c) fee False =
     Inr (\<lparr>ret = replicate 10 (Fin 0), strategy_ret = replicate 10 (Fin 0)\<rparr>, 0)"
proof -
  have r: "fillna 0 (compute_returns_from_price (replicate 10 c) False)
      = replicate 10 (Fin 0)"
    unfolding const_returns [OF assms] by (simp add: replicate10 replicate9 fillna_def)
  have p: "position (replicate 10 0) = replicate 10 (Fin 0)"
    by (simp add: replicate10 position_def shift1_def fillna_def to_float_def)
  have f: "flips (replicate 10 0) = replicate 10 (Fin 0)"
    by (simp add: replicate10 flips_def series_diff_def shift1_def fillna_def to_float_def
        fsub_def)
  have s: "series_sum (replicate 10 (Fin 0)) = Fin 0"
    by (simp add: replicate10 series_sum_def dropna_def fsum_def)
  show ?thesis
    unfolding apply_strategy_def Let_def r p f s
    by (simp add: replicate10 fsub_def)
qed

lemma zeros_Fin: "replicate 10 (Fin 0) = map Fin (replicate 10 0)"
  by simp

lemma zeros_n: "n (compute_summary_metrics (replicate 10 (Fin 0))) = 10"
  by (simp add: summary_n dropna_def)

lemma zeros_mean:
  "mean_daily_excess (compute_summary_metrics (replicate 10 (Fin 0))) = Fin 0"
  unfolding summary_mean zeros_Fin series_mean_Fin by (simp add: sum_list_replicate)

lemma zeros_std:
  "std_daily_excess (compute_summary_metrics (replicate 10 (Fin 0))) = Fin 0"
  unfolding summary_std zeros_Fin series_std_Fin by (simp add: sum_list_replicate)

lemma zeros_sharpe:
  "sharpe_annualized (compute_summary_metrics (replicate 10 (Fin 0))) = NaN"
  using zeros_std by (simp add: summary_sharpe summary_std annualized_sharpe_def)

lemma zeros_sortino:
  "sortino_annualized (compute_summary_metrics (replicate 10 (Fin 0))) = NaN"
  by (simp add: summary_sortino dropna_def)

lemma zeros_hit_rate:
  "hit_rate (compute_summary_metrics (replicate 10 (Fin 0))) = Fin 0"
  by (simp add: summary_hit_rate dropna_def)

lemma zeros_max_drawdown:
  "max_drawdown (compute_summary_metrics (replicate 10 (Fin 0))) = Fin 0"
proof -
  have d: "dropna (replicate 10 (Fin 0)) = map Fin (replicate 10 0)"
    by (simp add: dropna_def)
  have g: "\<forall>r\<in>set (replicate 10 (0::real)). - 1 < r" by simp
  have dd: "drawdown (map Fin (replicate 10 0)) = map Fin (replicate 10 0)"
    unfolding drawdown_Fin [OF g] by (simp add: replicate10)
  have m: "series_min (map Fin (replicate 10 0)) = Fin 0"
    unfolding series_min_Fin by simp
  show ?thesis
    unfolding summary_max_drawdown d max_drawdown_from_returns_def Let_def dd m
    by simp
qed

text \<open>
  C8, as the code computes it. For a constant positive price series of length 10 under
  simple returns: the first return is undefined and the other nine are 0; the run
  counts ten excess returns, all 0; their mean is 0 and their standard deviation is 0,
  which is defined; the Sharpe and Sortino ratios are undefined; the maximum drawdown
  is 0 and the hit rate is 0.
\<close>

theorem C8_constant_prices:
  assumes "0 < c" and "close df = replicate 10 c"
    and "exec_price a = ExecClose" and "riskfree_col a = None"
    and "use_log_returns a = False"
  shows "compute_returns_from_price (close df) False = NaN # replicate 9 (Fin 0)
    \<and> (\<exists>r. run_backtest a df = Inr r
          \<and> n (summary r) = 10
          \<and> mean_daily_excess (summary r) = Fin 0
          \<and> std_daily_excess (summary r) = Fin 0
          \<and> sharpe_annualized (summary r) = NaN
          \<and> sortino_annualized (summary r) = NaN
          \<and> max_drawdown (summary r) = Fin 0
          \<and> hit_rate (summary r) = Fin 0)"
proof -
  have "apply_strategy (generate_signals (close df)) (close df) (fee_bps a)
          (use_log_returns a)
      = Inr (\<lparr>ret = replicate 10 (Fin 0), strategy_ret = replicate 10 (Fin 0)\<rparr>, 0)"
    using assms by (simp add: const_signal const_strategy)
  then have "run_backtest a df =
     Inr \<lparr>summary = compute_summary_metrics (replicate 10 (Fin 0)), trade_count = 0,
          last_roll = last_defined (rolling_sharpe_annualized (replicate 10 (Fin 0))
                        (nat (max 5 (window a))))\<rparr>"
    using run_backtest_close [OF assms(3,4)] by simp
  then show ?thesis
    using assms(1,2)
    by (simp add: const_returns zeros_n zeros_mean zeros_std zeros_sharpe zeros_sortino
        zeros_max_drawdown zeros_hit_rate)
qed

text \<open>The constant price 100 with the default fee and window.\<close>

theorem C8_constant_prices_witness:
  "compute_returns_from_price (replicate 10 100) False = NaN # replicate 9 (Fin 0)
   \<and> (\<exists>r. run_backtest
              \<lparr>fee_bps = 1, use_log_returns = False, exec_price = ExecClose,
               window = 60, riskfree_col = None\<rparr>
              \<lparr>close = replicate 10 100, open_px = None, extra = Map.empty\<rparr>
            = Inr r
          \<and> n (summary r) = 10
          \<and> std_daily_excess (summary r) = Fin 0
          \<and> sharpe_annualized (summary r) = NaN
          \<and> max_drawdown (summary r) = Fin 0
          \<and> hit_rate (summary r) = Fin 0)"
  using C8_constant_prices [of 100
      "\<lparr>close = replicate 10 100, open_px = None, extra = Map.empty\<rparr>"
      "\<lparr>fee_bps = 1, use_log_returns = False, exec_price = ExecClose,
               window = 60, riskfree_col = None\<rparr>"]
  by auto

text \<open>
  C8 as the specification states it says that the standard deviation is undefined; the
  ten excess returns of the run are all 0 and their standard deviation is 0.
\<close>

theorem C8_counterexample:
  "apply_strategy (generate_signals (replicate 10 100)) (replicate 10 100) 1 False =
     Inr (\<lparr>ret = replicate 10 (Fin 0), strategy_ret = replicate 10 (Fin 0)\<rparr>, 0)
   \<and> std_daily_excess (compute_summary_metrics (replicate 10 (Fin 0))) = Fin 0
   \<and> \<not> isnan (std_daily_excess (compute_summary_metrics (replicate 10 (Fin 0))))"
  by (simp add: const_signal const_strategy zeros_std)

section \<open>Undefined returns and the sample size\<close>









section \<open>Logarithmic returns of non-positive prices\<close>







section \<open>Rolling Sharpe ratio over the whole series\<close>

lemma prep_values_Fin: "prep_values (map Fin rs) = map Fin rs"
  by (simp add: prep_values_def)

lemma window_at_full: "xs \<noteq> [] \<Longrightarrow> window_at (length xs) xs (length xs - 1) = xs"
  by (simp add: window_at_def)

lemma window_at_short: "t < w - 1 \<Longrightarrow> length (dropna (window_at w xs t)) < w"
proof -
  assume "t < w - 1"
  then have "length (window_at w xs t) < w" by (simp add: window_at_def)
  moreover have "length (dropna (window_at w xs t)) \<le> length (window_at w xs t)"
    by (simp add: dropna_def)
  ultimately show ?thesis by simp
qed

lemma length_rolling: "length (rolling w m stat xs) = length xs"
  by (simp add: rolling_def)

lemma rolling_nth_full:
  assumes "rs \<noteq> []"
  shows "rolling (length rs) (length rs) stat (map Fin rs) ! (length rs - 1)
           = stat (map Fin rs)"
proof -
  have t: "length rs - 1 < length rs" using assms by simp
  have w: "window_at (length rs) (map Fin rs) (length rs - 1) = map Fin rs"
    using window_at_full [of "map Fin rs"] assms by simp
  have w': "window_at (length rs) (map Fin rs) (length rs - Suc 0) = map Fin rs"
    using w by simp
  show ?thesis
    using t by (simp add: rolling_def prep_values_Fin w' Let_def dropna_Fin del: upt_Suc)
qed

lemma rolling_nth_short:
  assumes "t < length xs" and "t < w - 1"
  shows "rolling w w stat xs ! t = NaN"
  using assms window_at_short [OF assms(2), of "prep_values xs"]
  by (simp add: rolling_def Let_def del: upt_Suc)

text \<open>
  With the window as long as a series of finite values, the only defined rolling value
  is the last one, and it is \<open>(mean / std) * sqrt(252)\<close> without a test on \<open>std\<close>.
\<close>

lemma rolling_sharpe_full:
  assumes "rs \<noteq> []"
  shows "rolling_sharpe_annualized (map Fin rs) (length rs) ! (length rs - 1) =
           fmul (fdiv (series_mean (map Fin rs)) (series_std (map Fin rs)))
                (Fin (sqrt TRADING_DAYS))"
    and "\<forall>t<length rs - 1. rolling_sharpe_annualized (map Fin rs) (length rs) ! t = NaN"
proof -
  have t: "length rs - 1 < length rs" using assms by simp
  show "rolling_sharpe_annualized (map Fin rs) (length rs) ! (length rs - 1) =
           fmul (fdiv (series_mean (map Fin rs)) (series_std (map Fin rs)))
                (Fin (sqrt TRADING_DAYS))"
    using t rolling_nth_full [OF assms, of series_mean]
      rolling_nth_full [OF assms, of series_std]
    by (simp add: rolling_sharpe_annualized_def Let_def length_rolling)
  show "\<forall>t<length rs - 1. rolling_sharpe_annualized (map Fin rs) (length rs) ! t = NaN"
  proof (intro allI impI)
    fix t assume a: "t < length rs - 1"
    then have b: "t < length (map Fin rs)" by simp
    show "rolling_sharpe_annualized (map Fin rs) (length rs) ! t = NaN"
      using b rolling_nth_short [OF b a, of series_mean]
      by (simp add: rolling_sharpe_annualized_def Let_def length_rolling)
  qed
qed

lemma rolling_sharpe_agrees:
  assumes "rs \<noteq> []" and "series_std (map Fin rs) \<noteq> Fin 0"
  shows "rolling_sharpe_annualized (map Fin rs) (length rs) ! (length rs - 1) =
           sharpe_annualized (compute_summary_metrics (map Fin rs))"
proof -
  have r: "rolling_sharpe_annualized (map Fin rs) (length rs) ! (length rs - 1) =
           fmul (fdiv (series_mean (map Fin rs)) (series_std (map Fin rs)))
                (Fin (sqrt TRADING_DAYS))"
    using assms(1) by (rule rolling_sharpe_full(1))
  show ?thesis
    unfolding r summary_sharpe using assms(2)
    by (cases "series_std (map Fin rs)")
       (simp_all add: annualized_sharpe_def fdiv_NaN_right)
qed

text \<open>
  C7 at five excess returns of \<open>0.5\<close> with a window of 5. The standard deviation is 0.
  The rolling series ends in \<open>+inf\<close> (\<open>0.5 / 0\<close>), which \<open>dropna\<close> keeps and the run
  reports as the last rolling Sharpe ratio; the Sharpe ratio of the summary is NaN,
  because \<open>annualized_sharpe\<close> tests \<open>std == 0\<close>.
\<close>

theorem C7_rolling_differs:
  "rolling_sharpe_annualized [Fin (1 / 2), Fin (1 / 2), Fin (1 / 2), Fin (1 / 2), Fin (1 / 2)] 5
     = [NaN, NaN, NaN, NaN, PInf]
   \<and> last_defined (rolling_sharpe_annualized
        [Fin (1 / 2), Fin (1 / 2), Fin (1 / 2), Fin (1 / 2), Fin (1 / 2)] 5) = PInf
   \<and> std_daily_excess (compute_summary_metrics
        [Fin (1 / 2), Fin (1 / 2), Fin (1 / 2), Fin (1 / 2), Fin (1 / 2)]) = Fin 0
   \<and> sharpe_annualized (compute_summary_metrics
        [Fin (1 / 2), Fin (1 / 2), Fin (1 / 2), Fin (1 / 2), Fin (1 / 2)]) = NaN"
proof -
  let ?rs = "[1 / 2, 1 / 2, 1 / 2, 1 / 2, 1 / 2 :: real]"
  let ?xs = "[Fin (1 / 2), Fin (1 / 2), Fin (1 / 2), Fin (1 / 2), Fin (1 / 2)]"
  have x: "?xs = map Fin ?rs" by simp
  have m: "series_mean (map Fin ?rs) = Fin (1 / 2)"
    unfolding series_mean_Fin by simp
  have s: "series_std (map Fin ?rs) = Fin 0"
    unfolding series_std_Fin by simp
  have l: "length (rolling_sharpe_annualized ?xs 5) = 5"
    by (simp add: rolling_sharpe_annualized_def Let_def length_rolling)
  have "rolling_sharpe_annualized (map Fin ?rs) (length ?rs) ! (length ?rs - 1) =
           fmul (fdiv (series_mean (map Fin ?rs)) (series_std (map Fin ?rs)))
                (Fin (sqrt TRADING_DAYS))"
    by (rule rolling_sharpe_full(1)) simp
  then have last:
    "rolling_sharpe_annualized (map Fin ?rs) (length ?rs) ! (length ?rs - 1) = PInf"
    unfolding m s by (simp add: TRADING_DAYS_def)
  have first: "\<forall>t<length ?rs - 1.
      rolling_sharpe_annualized (map Fin ?rs) (length ?rs) ! t = NaN"
    by (rule rolling_sharpe_full(2)) simp
  have r: "rolling_sharpe_annualized ?xs 5 = [NaN, NaN, NaN, NaN, PInf]"
  proof (rule nth_equalityI)
    show "length (rolling_sharpe_annualized ?xs 5) = length [NaN, NaN, NaN, NaN, PInf]"
      using l by simp
    fix i assume "i < length (rolling_sharpe_annualized ?xs 5)"
    then have "i = 0 \<or> i = 1 \<or> i = 2 \<or> i = 3 \<or> i = 4" using l by auto
    then show "rolling_sharpe_annualized ?xs 5 ! i = [NaN, NaN, NaN, NaN, PInf] ! i"
      using first last by (auto simp: eval_nat_numeral)
  qed
  have "std_daily_excess (compute_summary_metrics ?xs) = Fin 0"
    unfolding x summary_std s ..
  moreover have "sharpe_annualized (compute_summary_metrics ?xs) = NaN"
    unfolding x summary_sharpe s by (simp add: annualized_sharpe_def)
  ultimately show ?thesis
    unfolding r by (simp add: last_defined_def dropna_def)
qed

end
